theory Spec2Isabelle
  imports Complex_Main
begin

section \<open>Package installation inside a chroot (pmb/chroot/apk.py)\<close>

text \<open>
  A shallow embedding of \<^verbatim>\<open>pmb/chroot/apk.py\<close>. The functions of that module are
  translated one by one. Everything the module calls in other modules (the package
  builder, the privileged command runner, the index parser, \<open>\<dots>\<close>) is a field of the
  record \<open>env\<close>: a function of an abstract world \<open>'w\<close>, which stands for the file
  system and everything else outside the process. Calls with an effect return the
  new world or an error, and are recorded in a trace together with the log messages.
\<close>

subsection \<open>Python values\<close>

datatype error =
    RuntimeError string
  | ValueError string
  | KeyError string
  | CollaboratorError string

datatype level = DEBUG | INFO | WARNING

datatype event =
    Log level string
  | RunRoot "string list"
  | BuildPackage string string bool
  | ChrootInit string
  | ApkWithProgress "string list" string
  | ChrootRoot "string list" string

text \<open>
  A Python float is a finite number, an infinity or NaN; \<open>float_gt a b\<close> is Python's
  \<^verbatim>\<open>a > b\<close>.
\<close>

datatype pyfloat = Finite real | PosInf | NegInf | NaN

fun float_gt :: "pyfloat \<Rightarrow> pyfloat \<Rightarrow> bool" where
  "float_gt (Finite a) (Finite b) = (b < a)"
| "float_gt (Finite a) NegInf = True"
| "float_gt PosInf (Finite b) = True"
| "float_gt PosInf NegInf = True"
| "float_gt _ _ = False"

text \<open>
  A metadata block of an APKINDEX or of the installed database is a Python dict; only
  its string-valued keys are read here. It is kept as an association list, so that the
  empty dict (falsy in Python) can be told from the others.
\<close>

type_synonym entry = "(string \<times> string) list"

definition getitem :: "entry \<Rightarrow> string \<Rightarrow> error + string" where
  "getitem d k = (case map_of d k of None \<Rightarrow> Inl (KeyError k) | Some v \<Rightarrow> Inr v)"

text \<open>\<^verbatim>\<open>not data_repo\<close>: None and the empty dict are falsy.\<close>

definition falsy_entry :: "entry option \<Rightarrow> bool" where
  "falsy_entry d = (case d of None \<Rightarrow> True | Some e \<Rightarrow> e = [])"

text \<open>\<^verbatim>\<open>s.startswith(c)\<close> for a one-character prefix, and \<^verbatim>\<open>s.lstrip(c)\<close>.\<close>

definition startswith :: "string \<Rightarrow> char \<Rightarrow> bool" where
  "startswith s c = (case s of [] \<Rightarrow> False | x # _ \<Rightarrow> x = c)"

definition lstrip :: "char \<Rightarrow> string \<Rightarrow> string" where
  "lstrip c s = dropWhile (\<lambda>x. x = c) s"

subsection \<open>The state and the collaborators\<close>

record 'w state =
  world :: 'w
  trace :: "event list"
  apk_repository_list_updated :: "string list"
  apk_min_version_checked :: "string list"

text \<open>
  The fields \<open>work\<close> to \<open>offline\<close> are those of \<^verbatim>\<open>args\<close>. The last field is the builtin
  \<^verbatim>\<open>float\<close> on a string: the float, or the error that \<^verbatim>\<open>float\<close> raises.
\<close>

record 'w env =
  work :: string
  action :: string
  build_pkgs_on_install :: bool
  offline :: bool
  path_exists :: "'w \<Rightarrow> string \<Rightarrow> bool"
  read_text :: "'w \<Rightarrow> string \<Rightarrow> error + string"
  run_root :: "'w \<Rightarrow> string list \<Rightarrow> error + 'w"
  repo_urls :: "'w \<Rightarrow> string list"
  check_outdated :: "'w \<Rightarrow> string \<Rightarrow> string \<Rightarrow> error + unit"
  build_package :: "'w \<Rightarrow> string \<Rightarrow> string \<Rightarrow> bool \<Rightarrow> error + 'w"
  apkindex_package :: "'w \<Rightarrow> string \<Rightarrow> string \<Rightarrow> entry option"
  apkindex_parse :: "'w \<Rightarrow> string \<Rightarrow> error + (string \<rightharpoonup> entry)"
  version_compare :: "string \<Rightarrow> string \<Rightarrow> int"
  pmaports_find :: "'w \<Rightarrow> string \<Rightarrow> string option"
  arch_from_chroot_suffix :: "'w \<Rightarrow> string \<Rightarrow> error + string"
  depends_recurse :: "'w \<Rightarrow> string list \<Rightarrow> string \<Rightarrow> error + string list"
  chroot_init :: "'w \<Rightarrow> string \<Rightarrow> error + 'w"
  apk_with_progress :: "'w \<Rightarrow> string list \<Rightarrow> string \<Rightarrow> error + 'w"
  chroot_root :: "'w \<Rightarrow> string list \<Rightarrow> string \<Rightarrow> error + 'w"
  float_of_string :: "string \<Rightarrow> error + pyfloat"

type_synonym ('w, 'a) result = "(error + 'a) \<times> 'w state"

definition record_event :: "event \<Rightarrow> 'w state \<Rightarrow> 'w state" where
  "record_event ev s = s\<lparr>trace := trace s @ [ev]\<rparr>"

definition logging :: "level \<Rightarrow> string \<Rightarrow> 'w state \<Rightarrow> 'w state" where
  "logging l msg s = record_event (Log l msg) s"

text \<open>
  A call of a collaborator with an effect: the call is recorded, and the world is the
  one the collaborator leaves, or the old one when it raises.
\<close>

definition effect :: "event \<Rightarrow> (error + 'w) \<Rightarrow> 'w state \<Rightarrow> ('w, unit) result" where
  "effect ev r s =
     (case r of
        Inl e \<Rightarrow> (Inl e, record_event ev s)
      | Inr w \<Rightarrow> (Inr (), (record_event ev s)\<lparr>world := w\<rparr>))"

definition call_build_package ::
  "'w env \<Rightarrow> string \<Rightarrow> string \<Rightarrow> bool \<Rightarrow> 'w state \<Rightarrow> ('w, unit) result" where
  "call_build_package E package arch force s =
     effect (BuildPackage package arch force) (build_package E (world s) package arch force) s"

definition call_run_root :: "'w env \<Rightarrow> string list \<Rightarrow> 'w state \<Rightarrow> ('w, unit) result" where
  "call_run_root E cmd s = effect (RunRoot cmd) (run_root E (world s) cmd) s"

definition call_chroot_init :: "'w env \<Rightarrow> string \<Rightarrow> 'w state \<Rightarrow> ('w, unit) result" where
  "call_chroot_init E suffix s = effect (ChrootInit suffix) (chroot_init E (world s) suffix) s"

definition call_apk_with_progress ::
  "'w env \<Rightarrow> string list \<Rightarrow> string \<Rightarrow> 'w state \<Rightarrow> ('w, unit) result" where
  "call_apk_with_progress E cmd suffix s =
     effect (ApkWithProgress cmd suffix) (apk_with_progress E (world s) cmd suffix) s"

definition call_chroot_root ::
  "'w env \<Rightarrow> string list \<Rightarrow> string \<Rightarrow> 'w state \<Rightarrow> ('w, unit) result" where
  "call_chroot_root E cmd suffix s =
     effect (ChrootRoot cmd suffix) (chroot_root E (world s) cmd suffix) s"

text \<open>The calls of the package manager in a trace.\<close>

fun is_apk_invocation :: "event \<Rightarrow> bool" where
  "is_apk_invocation (ApkWithProgress cmd suffix) = True"
| "is_apk_invocation (ChrootRoot cmd suffix) = True"
| "is_apk_invocation ev = False"

definition apk_invocations :: "'w state \<Rightarrow> event list" where
  "apk_invocations s = filter is_apk_invocation (trace s)"

text \<open>
  The state \<open>s'\<close> comes after \<open>s\<close> by log entries, initialisations of a chroot and calls
  of the package builder only.
\<close>

fun is_prepare_event :: "event \<Rightarrow> bool" where
  "is_prepare_event (Log l msg) = True"
| "is_prepare_event (ChrootInit suffix) = True"
| "is_prepare_event (BuildPackage package arch force) = True"
| "is_prepare_event ev = False"

definition prepared_from :: "'w state \<Rightarrow> 'w state \<Rightarrow> bool" where
  "prepared_from s s' = (\<exists>evs. trace s' = trace s @ evs \<and> list_all is_prepare_event evs)"

subsection \<open>install_is_necessary\<close>

text \<open>Lines 104 to 107: building may be disabled during \<^verbatim>\<open>pmbootstrap install\<close>.\<close>

definition build_disabled :: "'w env \<Rightarrow> bool" where
  "build_disabled E = (action E = ''install'' \<and> \<not> build_pkgs_on_install E)"

text \<open>Lines 109 to 111.\<close>

definition build_step ::
  "'w env \<Rightarrow> bool \<Rightarrow> string \<Rightarrow> string \<Rightarrow> 'w state \<Rightarrow> ('w, unit) result" where
  "build_step E build arch package s =
     (if build \<and> \<not> build_disabled E then call_build_package E package arch False s
      else (Inr (), s))"

definition msg_no_binary :: "string \<Rightarrow> string \<Rightarrow> string" where
  "msg_no_binary package arch =
     package @ '': no binary package found for '' @ arch @
     '', and compiling packages during 'pmbootstrap install' has been disabled.'' @
     '' Consider changing this option in 'pmbootstrap init'.''"

definition msg_not_built :: "string \<Rightarrow> string \<Rightarrow> string" where
  "msg_not_built package arch =
     ''WARNING: Internal error in pmbootstrap, package '' @ [CHR 0x27] @ package @ [CHR 0x27] @
     '' for '' @ arch @
     '' has not been built yet, but it should have been. Rebuilding it with force. Please '' @
     '' report this, if there is no ticket about this yet!''"

definition msg_installed_newer :: "string \<Rightarrow> string \<Rightarrow> string \<Rightarrow> string \<Rightarrow> string" where
  "msg_installed_newer arch package v_installed v_repo =
     ''WARNING: '' @ arch @ '' package '' @ [CHR 0x27] @ package @ [CHR 0x27] @
     '' installed version '' @ v_installed @
     '' is newer, than the version in the repositories: '' @ v_repo @
     '' See also: <https://postmarketos.org/warning-repo>''"

text \<open>
  Lines 136 to 157: the installed version against the version in the repositories.
  The function returns Python's None (here \<open>None\<close>) when the comparison yields a
  number other than 1, -1 and 0.
\<close>

definition compare_installed ::
  "'w env \<Rightarrow> string \<Rightarrow> string \<Rightarrow> entry \<Rightarrow> entry \<Rightarrow> 'w state \<Rightarrow> ('w, bool option) result" where
  "compare_installed E arch package data_installed data_repo s =
     (case getitem data_installed ''version'' of
        Inl e \<Rightarrow> (Inl e, s)
      | Inr v_installed \<Rightarrow>
     (case getitem data_repo ''version'' of
        Inl e \<Rightarrow> (Inl e, s)
      | Inr v_repo \<Rightarrow>
     (let compare = version_compare E v_installed v_repo in
      if compare = 1 then
        (Inr (Some False), logging INFO (msg_installed_newer arch package v_installed v_repo) s)
      else if compare = - 1 then (Inr (Some True), s)
      else if compare = 0 then
        (case getitem data_installed ''timestamp'' of
           Inl e \<Rightarrow> (Inl e, s)
         | Inr t_installed \<Rightarrow>
        (case float_of_string E t_installed of
           Inl e \<Rightarrow> (Inl e, s)
         | Inr time_installed \<Rightarrow>
        (case getitem data_repo ''timestamp'' of
           Inl e \<Rightarrow> (Inl e, s)
         | Inr t_repo \<Rightarrow>
        (case float_of_string E t_repo of
           Inl e \<Rightarrow> (Inl e, s)
         | Inr time_repo \<Rightarrow> (Inr (Some (float_gt time_repo time_installed)), s)))))
      else (Inr None, s))))"

text \<open>
  The function calls itself after a forced rebuild, with nothing that bounds the number
  of calls: it is a partial function, and \<open>None\<close> is a run that does not return. (The
  Python interpreter ends such a run with a RecursionError once its stack of calls is as
  deep as its recursion limit, a number that is not part of this module.)
\<close>

partial_function (option) install_is_necessary ::
  "'w env \<Rightarrow> bool \<Rightarrow> string \<Rightarrow> string \<Rightarrow> (string \<rightharpoonup> entry) \<Rightarrow> 'w state
     \<Rightarrow> ('w, bool option) result option" where
  "install_is_necessary E build arch package packages_installed s =
     (if startswith package (CHR ''!'') then
        Some (Inr (Some (packages_installed (tl package) \<noteq> None)), s)
      else
        (case build_step E build arch package s of
           (Inl e, s1) \<Rightarrow> Some (Inl e, s1)
         | (Inr u, s1) \<Rightarrow>
        (case packages_installed package of
           None \<Rightarrow> Some (Inr (Some True), s1)
         | Some data_installed \<Rightarrow>
        (let data_repo = apkindex_package E (world s1) package arch in
         if falsy_entry data_repo then
           (if build_disabled E then Some (Inl (RuntimeError (msg_no_binary package arch)), s1)
            else
              (case call_build_package E package arch True
                      (logging WARNING (msg_not_built package arch) s1) of
                 (Inl e, s2) \<Rightarrow> Some (Inl e, s2)
               | (Inr u, s2) \<Rightarrow>
                   install_is_necessary E build arch package packages_installed s2))
         else
           Some (compare_installed E arch package data_installed (the data_repo) s1)))))"

declare install_is_necessary.simps [code]

subsection \<open>update_repository_list\<close>

text \<open>
  Reading a text file line by line, as \<^verbatim>\<open>for line in handle\<close> does on a file opened
  with \<^verbatim>\<open>open(path)\<close>: the line ends \<^verbatim>\<open>\r\n\<close> and \<^verbatim>\<open>\r\<close> are read as \<^verbatim>\<open>\n\<close>, and each
  line keeps its \<^verbatim>\<open>\n\<close>; only the last line may have none.
\<close>

abbreviation LF :: char where "LF \<equiv> CHR 0x0A"
abbreviation CR :: char where "CR \<equiv> CHR 0x0D"

fun universal_newlines :: "string \<Rightarrow> string" where
  "universal_newlines [] = []"
| "universal_newlines [c] = (if c = CR then [LF] else [c])"
| "universal_newlines (c # d # cs) =
     (if c = CR then (if d = LF then LF # universal_newlines cs
                      else LF # universal_newlines (d # cs))
      else c # universal_newlines (d # cs))"

fun lines_from :: "string \<Rightarrow> string \<Rightarrow> string list" where
  "lines_from cur [] = (if cur = [] then [] else [cur])"
| "lines_from cur (c # cs) =
     (if c = LF then (cur @ [c]) # lines_from [] cs else lines_from (cur @ [c]) cs)"

definition file_lines :: "string \<Rightarrow> string list" where
  "file_lines content = lines_from [] (universal_newlines content)"

text \<open>Lines 36 to 39: \<^verbatim>\<open>line[:-1]\<close> is the line without its last character.\<close>

definition read_lines_old :: "string \<Rightarrow> string list" where
  "read_lines_old content = map butlast (file_lines content)"

text \<open>\<^verbatim>\<open>shlex.quote\<close> of the standard library.\<close>

definition safe_char :: "char \<Rightarrow> bool" where
  "safe_char c =
     (c \<in> set ''abcdefghijklmnopqrstuvwxyzABCDEFGHIJKLMNOPQRSTUVWXYZ0123456789_@%+=:,./-'')"

definition shlex_quote :: "string \<Rightarrow> string" where
  "shlex_quote s =
     (if s = [] then [CHR 0x27, CHR 0x27]
      else if list_all safe_char s then s
      else [CHR 0x27] @
           concat (map (\<lambda>c. if c = CHR 0x27
                              then [CHR 0x27, CHR 0x22, CHR 0x27, CHR 0x22, CHR 0x27]
                              else [c]) s) @
           [CHR 0x27])"

definition repositories_path :: "'w env \<Rightarrow> string \<Rightarrow> string" where
  "repositories_path E suffix = work E @ ''/chroot_'' @ suffix @ ''/etc/apk/repositories''"

text \<open>\<^verbatim>\<open>os.path.dirname\<close> of that path.\<close>

definition repositories_dir :: "'w env \<Rightarrow> string \<Rightarrow> string" where
  "repositories_dir E suffix = work E @ ''/chroot_'' @ suffix @ ''/etc/apk''"

text \<open>Lines 31 to 41: read the old entries, or create the folder structure.\<close>

definition read_old_entries :: "'w env \<Rightarrow> string \<Rightarrow> 'w state \<Rightarrow> ('w, string list) result" where
  "read_old_entries E suffix s =
     (let path = repositories_path E suffix in
      if path_exists E (world s) path then
        (case read_text E (world s) path of
           Inl e \<Rightarrow> (Inl e, s)
         | Inr content \<Rightarrow> (Inr (read_lines_old content), s))
      else
        (case call_run_root E [''mkdir'', ''-p'', repositories_dir E suffix] s of
           (Inl e, s1) \<Rightarrow> (Inl e, s1)
         | (Inr u, s1) \<Rightarrow> (Inr [], s1)))"

text \<open>Lines 57 to 59: one privileged \<^verbatim>\<open>echo\<close> for each line.\<close>

fun append_lines :: "'w env \<Rightarrow> string \<Rightarrow> string list \<Rightarrow> 'w state \<Rightarrow> ('w, unit) result" where
  "append_lines E path [] s = (Inr (), s)"
| "append_lines E path (line # rest) s =
     (case call_run_root E [''sh'', ''-c'', ''echo '' @ shlex_quote line @ '' >> '' @ path] s of
        (Inl e, s1) \<Rightarrow> (Inl e, s1)
      | (Inr u, s1) \<Rightarrow> append_lines E path rest s1)"

text \<open>Lines 53 to 59: update the file.\<close>

definition update_file :: "'w env \<Rightarrow> string \<Rightarrow> string list \<Rightarrow> 'w state \<Rightarrow> ('w, unit) result" where
  "update_file E suffix lines_new s =
     (let path = repositories_path E suffix;
          s1 = logging DEBUG (''('' @ suffix @ '') update /etc/apk/repositories'') s in
      (case (if path_exists E (world s1) path then call_run_root E [''rm'', path] s1
             else (Inr (), s1)) of
         (Inl e, s2) \<Rightarrow> (Inl e, s2)
       | (Inr u, s2) \<Rightarrow> append_lines E path lines_new s2))"

definition mark_repository_list_updated :: "string \<Rightarrow> 'w state \<Rightarrow> 'w state" where
  "mark_repository_list_updated suffix s =
     s\<lparr>apk_repository_list_updated := apk_repository_list_updated s @ [suffix]\<rparr>"

function update_repository_list ::
  "'w env \<Rightarrow> string \<Rightarrow> bool \<Rightarrow> 'w state \<Rightarrow> ('w, unit) result" where
  "update_repository_list E suffix check s =
     (if suffix \<in> set (apk_repository_list_updated s) then (Inr (), s)
      else
        (case read_old_entries E suffix s of
           (Inl e, s1) \<Rightarrow> (Inl e, s1)
         | (Inr lines_old, s1) \<Rightarrow>
        (let lines_new = repo_urls E (world s1) in
         if lines_old = lines_new then (Inr (), mark_repository_list_updated suffix s1)
         else if check then
           (Inl (RuntimeError (''Failed to update: '' @ repositories_path E suffix)), s1)
         else
           (case update_file E suffix lines_new s1 of
              (Inl e, s2) \<Rightarrow> (Inl e, s2)
            | (Inr u, s2) \<Rightarrow> update_repository_list E suffix True s2))))"
  by pat_completeness auto
termination
  by (relation "measure (\<lambda>(E, suffix, check, s). if check then 0 else 1)") auto

declare update_repository_list.simps [simp del]

subsection \<open>installed and check_min_version\<close>

definition installed :: "'w env \<Rightarrow> string \<Rightarrow> 'w \<Rightarrow> error + (string \<rightharpoonup> entry)" where
  "installed E suffix w =
     apkindex_parse E w (work E @ ''/chroot_'' @ suffix @ ''/lib/apk/db/installed'')"

definition msg_zap :: string where
  "msg_zap = ''Delete your http cache and zap all chroots, then try again:'' @
             '' 'pmbootstrap zap -hc'' @ [CHR 0x27]"

definition msg_skipped :: "string \<Rightarrow> string" where
  "msg_skipped suffix =
     ''NOTE: Skipped apk version check for chroot '' @ [CHR 0x27] @ suffix @ [CHR 0x27] @
     '', because it is not installed yet!''"

definition check_min_version :: "'w env \<Rightarrow> string \<Rightarrow> 'w state \<Rightarrow> ('w, unit) result" where
  "check_min_version E suffix s =
     (if suffix \<in> set (apk_min_version_checked s) then (Inr (), s)
      else if \<not> path_exists E (world s) (work E @ ''/chroot_'' @ suffix @ ''/sbin/apk'') then
        (Inr (), logging DEBUG (msg_skipped suffix) s)
      else
        (case installed E suffix (world s) of
           Inl e \<Rightarrow> (Inl e, s)
         | Inr db \<Rightarrow>
        (case db ''apk-tools'' of
           None \<Rightarrow> (Inl (KeyError ''apk-tools''), s)
         | Some apk_tools \<Rightarrow>
        (case getitem apk_tools ''version'' of
           Inl e \<Rightarrow> (Inl e, s)
         | Inr version_installed \<Rightarrow>
        (case check_outdated E (world s) version_installed msg_zap of
           Inl e \<Rightarrow> (Inl e, s)
         | Inr u \<Rightarrow>
             (Inr (), s\<lparr>apk_min_version_checked := apk_min_version_checked s @ [suffix]\<rparr>))))))"

subsection \<open>replace_aports_packages_with_path\<close>

text \<open>\<^verbatim>\<open>if aport:\<close> holds for a path that is not empty.\<close>

definition truthy_path :: "string option \<Rightarrow> bool" where
  "truthy_path a = (case a of None \<Rightarrow> False | Some p \<Rightarrow> p \<noteq> [])"

definition msg_no_binary_aport :: "string \<Rightarrow> string" where
  "msg_no_binary_aport package =
     package @ '': could not find binary package, although it should exist for sure at'' @
     '' this point in the code. Probably an APKBUILD subpackage parsing bug. Related:'' @
     '' https://gitlab.com/postmarketOS/build.postmarketos.org/issues/61''"

definition apk_path :: "string \<Rightarrow> string \<Rightarrow> string \<Rightarrow> string" where
  "apk_path arch package version =
     ''/mnt/pmbootstrap-packages/'' @ arch @ ''/'' @ package @ ''-'' @ version @ ''.apk''"

text \<open>The loop of lines 168 to 184, with \<open>ret\<close> as its accumulator.\<close>

fun replace_loop ::
  "'w env \<Rightarrow> string \<Rightarrow> string \<Rightarrow> 'w \<Rightarrow> string list \<Rightarrow> string list \<Rightarrow> error + string list" where
  "replace_loop E suffix arch w ret [] = Inr ret"
| "replace_loop E suffix arch w ret (package # rest) =
     (if truthy_path (pmaports_find E w package) then
        (let data_repo = apkindex_package E w package arch in
         if falsy_entry data_repo then Inl (RuntimeError (msg_no_binary_aport package))
         else
           (case getitem (the data_repo) ''version'' of
              Inl e \<Rightarrow> Inl e
            | Inr version \<Rightarrow>
                (if path_exists E w (work E @ ''/chroot_'' @ suffix @ apk_path arch package version)
                 then replace_loop E suffix arch w (ret @ [apk_path arch package version]) rest
                 else replace_loop E suffix arch w (ret @ [package]) rest)))
      else replace_loop E suffix arch w (ret @ [package]) rest)"

definition replace_aports_packages_with_path ::
  "'w env \<Rightarrow> string list \<Rightarrow> string \<Rightarrow> string \<Rightarrow> 'w \<Rightarrow> error + string list" where
  "replace_aports_packages_with_path E packages suffix arch w =
     replace_loop E suffix arch w [] packages"

subsection \<open>install\<close>

text \<open>
  The loop of lines 207 to 214. A result of \<open>install_is_necessary\<close> that is not true
  (False or None) drops the package.
\<close>

fun filter_outdated ::
  "'w env \<Rightarrow> bool \<Rightarrow> string \<Rightarrow> (string \<rightharpoonup> entry) \<Rightarrow> string list \<Rightarrow> string list
     \<Rightarrow> string list \<Rightarrow> 'w state \<Rightarrow> ('w, string list \<times> string list) result option" where
  "filter_outdated E build arch packages_installed toadd todel [] s = Some (Inr (toadd, todel), s)"
| "filter_outdated E build arch packages_installed toadd todel (package # rest) s =
     (case install_is_necessary E build arch package packages_installed s of
        None \<Rightarrow> None
      | Some (Inl e, s1) \<Rightarrow> Some (Inl e, s1)
      | Some (Inr necessary, s1) \<Rightarrow>
          (if necessary \<noteq> Some True then
             filter_outdated E build arch packages_installed toadd todel rest s1
           else if startswith package (CHR ''!'') then
             filter_outdated E build arch packages_installed toadd
               (todel @ [lstrip (CHR ''!'') package]) rest s1
           else
             filter_outdated E build arch packages_installed (toadd @ [package]) todel rest s1))"

text \<open>
  Lines 195 to 214: initialise the chroot, add the dependencies, and split the packages
  into those to add and those to delete.
\<close>

definition install_prepare ::
  "'w env \<Rightarrow> string list \<Rightarrow> string \<Rightarrow> bool \<Rightarrow> 'w state
     \<Rightarrow> ('w, string \<times> (string \<rightharpoonup> entry) \<times> string list \<times> string list) result option" where
  "install_prepare E packages suffix build s =
     (case check_min_version E suffix s of
        (Inl e, s1) \<Rightarrow> Some (Inl e, s1)
      | (Inr u, s1) \<Rightarrow>
     (case call_chroot_init E suffix s1 of
        (Inl e, s2) \<Rightarrow> Some (Inl e, s2)
      | (Inr u, s2) \<Rightarrow>
     (case arch_from_chroot_suffix E (world s2) suffix of
        Inl e \<Rightarrow> Some (Inl e, s2)
      | Inr arch \<Rightarrow>
     (case depends_recurse E (world s2) packages suffix of
        Inl e \<Rightarrow> Some (Inl e, s2)
      | Inr packages_with_depends \<Rightarrow>
     (case installed E suffix (world s2) of
        Inl e \<Rightarrow> Some (Inl e, s2)
      | Inr packages_installed \<Rightarrow>
     (case filter_outdated E build arch packages_installed [] [] packages_with_depends s2 of
        None \<Rightarrow> None
      | Some (Inl e, s3) \<Rightarrow> Some (Inl e, s3)
      | Some (Inr (toadd, todel), s3) \<Rightarrow>
          Some (Inr (arch, packages_installed, toadd, todel), s3)))))))"

text \<open>Lines 220 to 222: the first package that starts with \<^verbatim>\<open>-\<close>, if there is one.\<close>

definition sanitize :: "string list \<Rightarrow> string option" where
  "sanitize packages = List.find (\<lambda>package. startswith package (CHR ''-'')) packages"

text \<open>Lines 225 to 228.\<close>

definition install_message :: "string \<Rightarrow> string list \<Rightarrow> (string \<rightharpoonup> entry) \<Rightarrow> string" where
  "install_message suffix packages packages_installed =
     foldl (\<lambda>message pkgname.
              if packages_installed pkgname = None then message @ '' '' @ pkgname else message)
       (''('' @ suffix @ '') install'') packages"

text \<open>Lines 236 to 249.\<close>

definition compose_commands :: "string list \<Rightarrow> string list \<Rightarrow> string list \<Rightarrow> string list list" where
  "compose_commands packages packages_toadd packages_todel =
     (let packages_without_conflicts = filter (\<lambda>p. \<not> startswith p (CHR ''!'')) packages;
          commands = [[''add''] @ packages_without_conflicts];
          commands = (if packages_toadd \<noteq> [] \<and> packages_without_conflicts \<noteq> packages_toadd
                      then [[''add'', ''-u'', ''--virtual'', ''.pmbootstrap''] @ packages_toadd,
                            [''add''] @ packages_without_conflicts,
                            [''del'', ''.pmbootstrap'']]
                      else commands)
      in if packages_todel \<noteq> [] then commands @ [[''del''] @ packages_todel] else commands)"

text \<open>The loop of lines 250 to 261, with the index \<open>i\<close> of \<^verbatim>\<open>enumerate\<close>.\<close>

fun run_commands ::
  "'w env \<Rightarrow> string \<Rightarrow> nat \<Rightarrow> string list list \<Rightarrow> 'w state \<Rightarrow> ('w, unit) result" where
  "run_commands E suffix i [] s = (Inr (), s)"
| "run_commands E suffix i (command # rest) s =
     (let command = (if offline E then [''--no-network''] @ command else command) in
      (case (if i = 0 then call_apk_with_progress E ([''apk''] @ command) suffix s
             else call_chroot_root E ([''apk'', ''--no-progress''] @ command) suffix s) of
         (Inl e, s1) \<Rightarrow> (Inl e, s1)
       | (Inr u, s1) \<Rightarrow> run_commands E suffix (Suc i) rest s1))"

text \<open>Lines 215 to 261.\<close>

definition install_apply ::
  "'w env \<Rightarrow> string list \<Rightarrow> string \<Rightarrow> string \<Rightarrow> (string \<rightharpoonup> entry) \<Rightarrow> string list
     \<Rightarrow> string list \<Rightarrow> 'w state \<Rightarrow> ('w, unit) result" where
  "install_apply E packages suffix arch packages_installed packages_toadd packages_todel s =
     (if packages_toadd = [] \<and> packages_todel = [] then (Inr (), s)
      else
        (case sanitize (packages_toadd @ packages_todel) of
           Some package \<Rightarrow> (Inl (ValueError (''Invalid package name: '' @ package)), s)
         | None \<Rightarrow>
        (let s1 = logging INFO (install_message suffix packages packages_installed) s in
         (case replace_aports_packages_with_path E packages_toadd suffix arch (world s1) of
            Inl e \<Rightarrow> (Inl e, s1)
          | Inr packages_toadd' \<Rightarrow>
              run_commands E suffix 0
                (compose_commands packages packages_toadd' packages_todel) s1))))"

definition install ::
  "'w env \<Rightarrow> string list \<Rightarrow> string \<Rightarrow> bool \<Rightarrow> 'w state \<Rightarrow> ('w, unit) result option" where
  "install E packages suffix build s =
     (case install_prepare E packages suffix build s of
        None \<Rightarrow> None
      | Some (Inl e, s1) \<Rightarrow> Some (Inl e, s1)
      | Some (Inr (arch, packages_installed, packages_toadd, packages_todel), s1) \<Rightarrow>
          Some (install_apply E packages suffix arch packages_installed
                  packages_toadd packages_todel s1))"

subsection \<open>A small concrete environment\<close>

text \<open>
  The theorems below hold for every environment. To run the functions on concrete
  inputs, here is a small one: its world is a list of text files and the number of
  forced builds so far; the privileged commands \<^verbatim>\<open>rm\<close> and \<^verbatim>\<open>echo line >> path\<close> act on
  the files; versions are compared as strings, character by character.
\<close>

record demo_world =
  dw_files :: "(string \<times> string) list"
  dw_forced :: nat

fun demo_compare :: "string \<Rightarrow> string \<Rightarrow> int" where
  "demo_compare [] [] = 0"
| "demo_compare [] (b # bs) = - 1"
| "demo_compare (a # as) [] = 1"
| "demo_compare (a # as) (b # bs) =
     (if a = b then demo_compare as bs
      else if (of_char a :: nat) < of_char b then - 1 else 1)"

definition demo_float :: "string \<Rightarrow> error + pyfloat" where
  "demo_float t =
     (if t = ''100.0'' then Inr (Finite 100)
      else if t = ''200.0'' then Inr (Finite 200)
      else if t = ''nan'' then Inr NaN
      else Inl (ValueError (''could not convert string to float: '' @
                            [CHR 0x27] @ t @ [CHR 0x27])))"

fun words_from :: "string \<Rightarrow> string \<Rightarrow> string list" where
  "words_from cur [] = [cur]"
| "words_from cur (c # cs) =
     (if c = CHR '' '' then cur # words_from [] cs else words_from (cur @ [c]) cs)"

definition demo_append :: "string \<Rightarrow> string \<Rightarrow> (string \<times> string) list \<Rightarrow> (string \<times> string) list" where
  "demo_append path text files =
     (if map_of files path = None then files @ [(path, text)]
      else map (\<lambda>(p, c). if p = path then (p, c @ text) else (p, c)) files)"

definition demo_run_root :: "demo_world \<Rightarrow> string list \<Rightarrow> error + demo_world" where
  "demo_run_root w cmd =
     (if length cmd = 2 \<and> cmd ! 0 = ''rm'' then
        Inr (w\<lparr>dw_files := filter (\<lambda>(p, c). p \<noteq> cmd ! 1) (dw_files w)\<rparr>)
      else if length cmd = 3 \<and> cmd ! 0 = ''sh'' \<and> cmd ! 1 = ''-c'' then
        (let ws = words_from [] (cmd ! 2) in
         if length ws = 4 \<and> ws ! 0 = ''echo'' \<and> ws ! 2 = ''>>'' then
           Inr (w\<lparr>dw_files := demo_append (ws ! 3) (ws ! 1 @ [LF]) (dw_files w)\<rparr>)
         else Inl (CollaboratorError (cmd ! 2)))
      else Inr w)"

definition demo_env :: "demo_world env" where
  "demo_env =
     \<lparr> work = ''/w'', action = ''build'', build_pkgs_on_install = True, offline = False,
       path_exists = (\<lambda>w p. map_of (dw_files w) p \<noteq> None),
       read_text = (\<lambda>w p. case map_of (dw_files w) p of
                             None \<Rightarrow> Inl (CollaboratorError p) | Some c \<Rightarrow> Inr c),
       run_root = demo_run_root,
       repo_urls = (\<lambda>w. [''https://mirror/a'', ''https://mirror/b'']),
       check_outdated = (\<lambda>w v m. Inr ()),
       build_package = (\<lambda>w p a force. Inr (if force then w\<lparr>dw_forced := Suc (dw_forced w)\<rparr> else w)),
       apkindex_package = (\<lambda>w p a. None),
       apkindex_parse = (\<lambda>w p. Inr Map.empty),
       version_compare = demo_compare,
       pmaports_find = (\<lambda>w p. None),
       arch_from_chroot_suffix = (\<lambda>w suffix. Inr ''x86_64''),
       depends_recurse = (\<lambda>w packages suffix. Inr packages),
       chroot_init = (\<lambda>w suffix. Inr w),
       apk_with_progress = (\<lambda>w cmd suffix. Inr w),
       chroot_root = (\<lambda>w cmd suffix. Inr w),
       float_of_string = demo_float \<rparr>"

text \<open>The same with a binary index and an installed database.\<close>

definition demo_env_with :: "(string \<times> entry) list \<Rightarrow> (string \<times> entry) list \<Rightarrow> demo_world env" where
  "demo_env_with index db =
     demo_env\<lparr> apkindex_package := (\<lambda>w p a. map_of index p),
               apkindex_parse := (\<lambda>w p. Inr (map_of db)) \<rparr>"

text \<open>An index in which the package appears after the second forced build.\<close>

definition demo_env_late :: "demo_world env" where
  "demo_env_late =
     demo_env\<lparr> apkindex_package :=
                 (\<lambda>w p a. if 2 \<le> dw_forced w
                           then Some [(''version'', ''1.0-r1''), (''timestamp'', ''200.0'')]
                           else None) \<rparr>"

text \<open>Privileged commands that succeed and change nothing.\<close>

definition demo_env_readonly :: "demo_world env" where
  "demo_env_readonly = demo_env\<lparr> run_root := (\<lambda>w cmd. Inr w) \<rparr>"

definition demo_state :: "(string \<times> string) list \<Rightarrow> demo_world state" where
  "demo_state files =
     \<lparr> world = \<lparr> dw_files = files, dw_forced = 0 \<rparr>, trace = [],
       apk_repository_list_updated = [], apk_min_version_checked = [] \<rparr>"

text \<open>
  Scenario A of the specification: the state after the repository list of a chroot
  without that file has been synchronised.
\<close>

definition demo_synced :: "demo_world state" where
  "demo_synced =
     \<lparr> world = \<lparr> dw_files = [(''/w/chroot_native/etc/apk/repositories'',
                                ''https://mirror/a'' @ [LF] @ ''https://mirror/b'' @ [LF])],
                 dw_forced = 0 \<rparr>,
       trace = [RunRoot [''mkdir'', ''-p'', ''/w/chroot_native/etc/apk''],
                Log DEBUG ''(native) update /etc/apk/repositories'',
                RunRoot [''sh'', ''-c'',
                  ''echo https://mirror/a >> /w/chroot_native/etc/apk/repositories''],
                RunRoot [''sh'', ''-c'',
                  ''echo https://mirror/b >> /w/chroot_native/etc/apk/repositories'']],
       apk_repository_list_updated = [''native''], apk_min_version_checked = [] \<rparr>"

text \<open>
  Three packages with a build recipe, two of them in the binary index, and one built
  package file inside the chroot.
\<close>

definition demo_env_aports :: "demo_world env" where
  "demo_env_aports =
     (demo_env_with [(''foo'', [(''version'', ''1.0-r1''), (''timestamp'', ''200.0'')]),
                     (''bar'', [(''version'', ''2.1-r0''), (''timestamp'', ''100.0'')])] [])
       \<lparr> pmaports_find :=
           (\<lambda>w p. if p \<in> set [''foo'', ''bar'', ''qux''] then Some (''/aports/main/'' @ p)
                   else None) \<rparr>"

definition demo_built :: demo_world where
  "demo_built =
     \<lparr> dw_files = [(''/w/chroot_native/mnt/pmbootstrap-packages/x86_64/foo-1.0-r1.apk'', [])],
       dw_forced = 0 \<rparr>"

text \<open>A dependency resolver that answers with the name of the providing package.\<close>

definition demo_env_provider :: "demo_world env" where
  "demo_env_provider = demo_env\<lparr> depends_recurse := (\<lambda>w packages suffix. Inr [''y'']) \<rparr>"

text \<open>A package \<^verbatim>\<open>-x\<close> that is installed and up to date.\<close>

definition demo_env_dash :: "demo_world env" where
  "demo_env_dash =
     demo_env_with [(''-x'', [(''version'', ''1.0-r0''), (''timestamp'', ''100.0'')])]
                   [(''-x'', [(''version'', ''1.0-r0''), (''timestamp'', ''100.0'')])]"

text \<open>Scenario D of the specification: \<^verbatim>\<open>b\<close> is installed, \<^verbatim>\<open>a\<close> is not.\<close>

definition demo_env_scenario_D :: "demo_world env" where
  "demo_env_scenario_D =
     demo_env_with [] [(''b'', [(''version'', ''1.0-r0''), (''timestamp'', ''100.0'')])]"

section \<open>Properties\<close>

subsection \<open>install_is_necessary\<close>

lemma startswith_Cons: "startswith (c # s) d = (c = d)"
  by (simp add: startswith_def)

lemma build_step_succeeds:
  "build_package E (world s) package arch False = Inr w \<Longrightarrow>
   \<exists>t. build_step E build arch package s = (Inr (), t)"
  by (simp add: build_step_def call_build_package_def effect_def)

lemma call_build_package_succeeds:
  "build_package E (world s) package arch force = Inr w \<Longrightarrow>
   \<exists>t. call_build_package E package arch force s = (Inr (), t)"
  by (simp add: call_build_package_def effect_def)

lemma never_returns_aux:
  assumes nobang: "\<not> startswith package (CHR ''!'')"
    and inst: "packages_installed package = Some d"
    and en: "\<not> build_disabled E"
    and absent: "\<forall>w. falsy_entry (apkindex_package E w package arch)"
    and builds: "\<forall>w force. \<exists>w'. build_package E w package arch force = Inr w'"
    and ret: "install_is_necessary E0 build0 arch0 package0 inst0 s0 = Some y0"
  shows "E0 = E \<and> arch0 = arch \<and> package0 = package \<and> inst0 = packages_installed \<longrightarrow> False"
  apply (rule install_is_necessary.raw_induct
           [where P = "\<lambda>E' build' arch' package' inst' s' y'.
              E' = E \<and> arch' = arch \<and> package' = package \<and> inst' = packages_installed
              \<longrightarrow> False", rotated -1, OF ret])
  subgoal premises prems for f E' build' arch' package' inst' s' y'
  proof
    assume eq: "E' = E \<and> arch' = arch \<and> package' = package \<and> inst' = packages_installed"
    obtain t1 where bs: "build_step E build' arch package s' = (Inr (), t1)"
      using builds build_step_succeeds by metis
    obtain t2 where fb: "call_build_package E package arch True
                          (logging WARNING (msg_not_built package arch) t1) = (Inr (), t2)"
      using builds call_build_package_succeeds by metis
    from prems(2) eq have "f E build' arch package packages_installed t2 = Some y'"
      using nobang inst en absent bs fb by simp
    with prems(1) show False by blast
  qed
  done

lemma never_returns:
  assumes nobang: "\<not> startswith package (CHR ''!'')"
    and inst: "packages_installed package = Some d"
    and en: "\<not> build_disabled E"
    and absent: "\<forall>w. falsy_entry (apkindex_package E w package arch)"
    and builds: "\<forall>w force. \<exists>w'. build_package E w package arch force = Inr w'"
  shows "install_is_necessary E build arch package packages_installed s = None"
proof (cases "install_is_necessary E build arch package packages_installed s")
  case None
  then show ?thesis .
next
  case (Some y)
  from never_returns_aux[where packages_installed = packages_installed and package = package,
      OF nobang inst en absent builds Some] show ?thesis by simp
qed

text \<open>
  Claim C6, amended. The package is in the installed snapshot and building is not
  disabled by policy. When the index has no entry for it after the build step, the
  function logs the warning, forces a rebuild and, unless that rebuild fails (its error
  is then the result), evaluates again for the same inputs in the state the rebuild has
  left. Nothing bounds the number of these evaluations: in an environment where the
  builds succeed and the entry never appears, the function does not return.
\<close>

theorem forced_rebuild_reruns_unbounded:
  assumes nobang: "\<not> startswith package (CHR ''!'')"
    and inst: "packages_installed package = Some d"
    and en: "\<not> build_disabled E"
  shows "(\<forall>s s1. build_step E build arch package s = (Inr (), s1) \<longrightarrow>
                 falsy_entry (apkindex_package E (world s1) package arch) \<longrightarrow>
            install_is_necessary E build arch package packages_installed s =
              (case call_build_package E package arch True
                      (logging WARNING (msg_not_built package arch) s1) of
                 (Inl e, s2) \<Rightarrow> Some (Inl e, s2)
               | (Inr u, s2) \<Rightarrow> install_is_necessary E build arch package packages_installed s2))
       \<and> ((\<forall>w. falsy_entry (apkindex_package E w package arch)) \<longrightarrow>
          (\<forall>w force. \<exists>w'. build_package E w package arch force = Inr w') \<longrightarrow>
          (\<forall>s. install_is_necessary E build arch package packages_installed s = None))"
proof (intro conjI allI impI)
  fix s s1
  assume "build_step E build arch package s = (Inr (), s1)"
    and "falsy_entry (apkindex_package E (world s1) package arch)"
  then show "install_is_necessary E build arch package packages_installed s =
              (case call_build_package E package arch True
                      (logging WARNING (msg_not_built package arch) s1) of
                 (Inl e, s2) \<Rightarrow> Some (Inl e, s2)
               | (Inr u, s2) \<Rightarrow> install_is_necessary E build arch package packages_installed s2)"
    using nobang inst en by (subst install_is_necessary.simps) simp
next
  fix s
  assume "\<forall>w. falsy_entry (apkindex_package E w package arch)"
    and "\<forall>w force. \<exists>w'. build_package E w package arch force = Inr w'"
  then show "install_is_necessary E build arch package packages_installed s = None"
    using never_returns[where packages_installed = packages_installed and package = package,
      OF nobang inst en] by blast
qed


text \<open>
  Claim C2. For a removal spec \<^verbatim>\<open>!name\<close>, \<open>install_is_necessary\<close> returns True if and only if
  \<open>name\<close> is a key of the installed snapshot, whatever the build flag, the architecture
  and the environment are; the state is returned as it was, so the build collaborator has
  not been called.
\<close>

theorem removal_spec_iff_installed:
  "install_is_necessary E build arch (CHR ''!'' # name) packages_installed s =
     Some (Inr (Some (name \<in> dom packages_installed)), s)"
  by (subst install_is_necessary.simps) (simp add: startswith_Cons dom_def)

text \<open>The removal specs of an installed and of a missing package.\<close>

theorem removal_spec_iff_installed_witness:
  "install_is_necessary demo_env True ''x86_64'' ''!foo''
     [''foo'' \<mapsto> [(''version'', ''1.0-r1'')]] (demo_state []) =
     Some (Inr (Some True), demo_state [])
   \<and> install_is_necessary demo_env True ''armhf'' ''!bar''
     [''foo'' \<mapsto> [(''version'', ''1.0-r1'')]] (demo_state []) =
     Some (Inr (Some False), demo_state [])"
  using removal_spec_iff_installed [of demo_env True "''x86_64''" "''foo''"
          "[''foo'' \<mapsto> [(''version'', ''1.0-r1'')]]" "demo_state []"]
        removal_spec_iff_installed [of demo_env True "''armhf''" "''bar''"
          "[''foo'' \<mapsto> [(''version'', ''1.0-r1'')]]" "demo_state []"]
  by simp

text \<open>
  Claim C1. The package spec has no \<^verbatim>\<open>!\<close> prefix, is in the installed snapshot, and has an
  entry in the repository index once the build step of lines 109 to 111 has returned
  (in the state \<open>s1\<close>). When the comparison of the installed version with the version in
  the repositories yields 1, \<open>install_is_necessary\<close> returns False and the trace has one
  more entry, the warning (logged at level INFO, with a text that starts with
  \<^verbatim>\<open>WARNING:\<close>). When the comparison yields -1, it returns True. When it yields 0 and the
  two timestamps are read as floats, it returns True if and only if the timestamp of the
  repository is greater than the installed one: for two numbers, \<open>a < b\<close>; an infinity is
  greater than every number and than the other infinity; nothing is greater than NaN,
  and NaN is greater than nothing.
\<close>

theorem install_is_necessary_compares_versions:
  assumes "\<not> startswith package (CHR ''!'')"
    and "packages_installed package = Some data_installed"
    and "build_step E build arch package s = (Inr (), s1)"
    and "apkindex_package E (world s1) package arch = Some data_repo"
    and "data_repo \<noteq> []"
    and "map_of data_installed ''version'' = Some v_installed"
    and "map_of data_repo ''version'' = Some v_repo"
  shows "(version_compare E v_installed v_repo = 1 \<longrightarrow>
            install_is_necessary E build arch package packages_installed s =
              Some (Inr (Some False),
                    s1\<lparr>trace := trace s1 @
                      [Log INFO
                         (''WARNING: '' @ arch @ '' package '' @ [CHR 0x27] @ package @
                          [CHR 0x27] @ '' installed version '' @ v_installed @
                          '' is newer, than the version in the repositories: '' @ v_repo @
                          '' See also: <https://postmarketos.org/warning-repo>'')]\<rparr>))
       \<and> (version_compare E v_installed v_repo = - 1 \<longrightarrow>
            install_is_necessary E build arch package packages_installed s =
              Some (Inr (Some True), s1))
       \<and> (version_compare E v_installed v_repo = 0 \<longrightarrow>
            (\<forall>t_installed t_repo time_installed time_repo.
               map_of data_installed ''timestamp'' = Some t_installed \<longrightarrow>
               map_of data_repo ''timestamp'' = Some t_repo \<longrightarrow>
               float_of_string E t_installed = Inr time_installed \<longrightarrow>
               float_of_string E t_repo = Inr time_repo \<longrightarrow>
               install_is_necessary E build arch package packages_installed s =
                 Some (Inr (Some
                   (case time_repo of
                      Finite b \<Rightarrow>
                        (case time_installed of
                           Finite a \<Rightarrow> a < b | NegInf \<Rightarrow> True | PosInf \<Rightarrow> False | NaN \<Rightarrow> False)
                    | PosInf \<Rightarrow>
                        (case time_installed of
                           Finite a \<Rightarrow> True | NegInf \<Rightarrow> True | PosInf \<Rightarrow> False | NaN \<Rightarrow> False)
                    | NegInf \<Rightarrow> False
                    | NaN \<Rightarrow> False)), s1)))"
proof (intro conjI impI allI)
  assume "version_compare E v_installed v_repo = 1"
  with assms show "install_is_necessary E build arch package packages_installed s =
              Some (Inr (Some False),
                    s1\<lparr>trace := trace s1 @
                      [Log INFO
                         (''WARNING: '' @ arch @ '' package '' @ [CHR 0x27] @ package @
                          [CHR 0x27] @ '' installed version '' @ v_installed @
                          '' is newer, than the version in the repositories: '' @ v_repo @
                          '' See also: <https://postmarketos.org/warning-repo>'')]\<rparr>)"
    by (subst install_is_necessary.simps)
       (simp add: falsy_entry_def compare_installed_def getitem_def logging_def
          record_event_def msg_installed_newer_def)
next
  assume "version_compare E v_installed v_repo = - 1"
  with assms show "install_is_necessary E build arch package packages_installed s =
              Some (Inr (Some True), s1)"
    by (subst install_is_necessary.simps)
       (simp add: falsy_entry_def compare_installed_def getitem_def)
next
  fix t_installed t_repo time_installed time_repo
  assume "version_compare E v_installed v_repo = 0"
    and "map_of data_installed ''timestamp'' = Some t_installed"
    and "map_of data_repo ''timestamp'' = Some t_repo"
    and "float_of_string E t_installed = Inr time_installed"
    and "float_of_string E t_repo = Inr time_repo"
  with assms
  have "install_is_necessary E build arch package packages_installed s =
          Some (Inr (Some (float_gt time_repo time_installed)), s1)"
    by (subst install_is_necessary.simps)
       (simp add: falsy_entry_def compare_installed_def getitem_def)
  moreover have "float_gt time_repo time_installed =
           (case time_repo of
              Finite b \<Rightarrow>
                (case time_installed of
                   Finite a \<Rightarrow> a < b | NegInf \<Rightarrow> True | PosInf \<Rightarrow> False | NaN \<Rightarrow> False)
            | PosInf \<Rightarrow>
                (case time_installed of
                   Finite a \<Rightarrow> True | NegInf \<Rightarrow> True | PosInf \<Rightarrow> False | NaN \<Rightarrow> False)
            | NegInf \<Rightarrow> False
            | NaN \<Rightarrow> False)"
    by (cases time_repo; cases time_installed) simp_all
  ultimately show "install_is_necessary E build arch package packages_installed s =
          Some (Inr (Some
            (case time_repo of
               Finite b \<Rightarrow>
                 (case time_installed of
                    Finite a \<Rightarrow> a < b | NegInf \<Rightarrow> True | PosInf \<Rightarrow> False | NaN \<Rightarrow> False)
             | PosInf \<Rightarrow>
                 (case time_installed of
                    Finite a \<Rightarrow> True | NegInf \<Rightarrow> True | PosInf \<Rightarrow> False | NaN \<Rightarrow> False)
             | NegInf \<Rightarrow> False
             | NaN \<Rightarrow> False)), s1)"
    by simp
qed

text \<open>
  Scenarios B and C of the specification: equal versions with timestamps 100.0
  (installed) and 200.0 (repository), and installed version 1.0-r2 against 1.0-r1. Then
  equal versions with equal timestamps, and with the newer timestamp installed: the
  answer is False, with no warning. Last, installed version 1.0-r0 against 1.0-r1.
\<close>

theorem install_is_necessary_compares_versions_witness:
  "install_is_necessary
     (demo_env_with [(''foo'', [(''version'', ''1.0-r1''), (''timestamp'', ''200.0'')])] [])
     True ''x86_64'' ''foo''
     [''foo'' \<mapsto> [(''version'', ''1.0-r1''), (''timestamp'', ''100.0'')]] (demo_state []) =
     Some (Inr (Some True),
           \<lparr> world = \<lparr> dw_files = [], dw_forced = 0 \<rparr>,
             trace = [BuildPackage ''foo'' ''x86_64'' False],
             apk_repository_list_updated = [], apk_min_version_checked = [] \<rparr>)
   \<and> install_is_necessary
     (demo_env_with [(''foo'', [(''version'', ''1.0-r1''), (''timestamp'', ''200.0'')])] [])
     False ''x86_64'' ''foo''
     [''foo'' \<mapsto> [(''version'', ''1.0-r2''), (''timestamp'', ''100.0'')]] (demo_state []) =
     Some (Inr (Some False),
           \<lparr> world = \<lparr> dw_files = [], dw_forced = 0 \<rparr>,
             trace = [Log INFO
               (''WARNING: x86_64 package 'foo' installed version 1.0-r2 is newer, than'' @
                '' the version in the repositories: 1.0-r1'' @
                '' See also: <https://postmarketos.org/warning-repo>'')],
             apk_repository_list_updated = [], apk_min_version_checked = [] \<rparr>)
   \<and> install_is_necessary
     (demo_env_with [(''foo'', [(''version'', ''1.0-r1''), (''timestamp'', ''200.0'')])] [])
     False ''x86_64'' ''foo''
     [''foo'' \<mapsto> [(''version'', ''1.0-r1''), (''timestamp'', ''200.0'')]] (demo_state []) =
     Some (Inr (Some False), demo_state [])
   \<and> install_is_necessary
     (demo_env_with [(''foo'', [(''version'', ''1.0-r1''), (''timestamp'', ''100.0'')])] [])
     False ''x86_64'' ''foo''
     [''foo'' \<mapsto> [(''version'', ''1.0-r1''), (''timestamp'', ''200.0'')]] (demo_state []) =
     Some (Inr (Some False), demo_state [])
   \<and> install_is_necessary
     (demo_env_with [(''foo'', [(''version'', ''1.0-r1''), (''timestamp'', ''200.0'')])] [])
     False ''x86_64'' ''foo''
     [''foo'' \<mapsto> [(''version'', ''1.0-r0''), (''timestamp'', ''100.0'')]] (demo_state []) =
     Some (Inr (Some True), demo_state [])"
proof -
  let ?E = "demo_env_with [(''foo'', [(''version'', ''1.0-r1''), (''timestamp'', ''200.0'')])] []"
  let ?F = "demo_env_with [(''foo'', [(''version'', ''1.0-r1''), (''timestamp'', ''100.0'')])] []"
  let ?iB = "[''foo'' \<mapsto> [(''version'', ''1.0-r1''), (''timestamp'', ''100.0'')]]"
  let ?iC = "[''foo'' \<mapsto> [(''version'', ''1.0-r2''), (''timestamp'', ''100.0'')]]"
  let ?iE = "[''foo'' \<mapsto> [(''version'', ''1.0-r1''), (''timestamp'', ''200.0'')]]"
  let ?iN = "[''foo'' \<mapsto> [(''version'', ''1.0-r0''), (''timestamp'', ''100.0'')]]"
  let ?s1 = "\<lparr> world = \<lparr> dw_files = [], dw_forced = 0 \<rparr>,
               trace = [BuildPackage ''foo'' ''x86_64'' False],
               apk_repository_list_updated = [], apk_min_version_checked = [] \<rparr>"
  have nobang: "\<not> startswith ''foo'' (CHR ''!'')"
    by (simp add: startswith_def)
  have stepB: "build_step ?E True ''x86_64'' ''foo'' (demo_state []) = (Inr (), ?s1)"
    by (simp add: build_step_def build_disabled_def call_build_package_def effect_def
          demo_env_with_def demo_env_def demo_state_def record_event_def)
  have stepC: "build_step E' False ''x86_64'' ''foo'' (demo_state []) = (Inr (), demo_state [])"
    for E' :: "demo_world env"
    by (simp add: build_step_def)
  have idx: "apkindex_package ?E w ''foo'' ''x86_64'' =
               Some [(''version'', ''1.0-r1''), (''timestamp'', ''200.0'')]" for w
    by (simp add: demo_env_with_def)
  have idxF: "apkindex_package ?F w ''foo'' ''x86_64'' =
               Some [(''version'', ''1.0-r1''), (''timestamp'', ''100.0'')]" for w
    by (simp add: demo_env_with_def)
  have B: "install_is_necessary ?E True ''x86_64'' ''foo'' ?iB (demo_state []) =
             Some (Inr (Some True), ?s1)"
    using install_is_necessary_compares_versions
            [where E = ?E and package = "''foo''" and packages_installed = ?iB
               and v_installed = "''1.0-r1''" and v_repo = "''1.0-r1''",
             OF nobang _ stepB idx]
    by (simp add: demo_env_with_def demo_env_def demo_float_def)
  have C: "install_is_necessary ?E False ''x86_64'' ''foo'' ?iC (demo_state []) =
             Some (Inr (Some False),
                   \<lparr> world = \<lparr> dw_files = [], dw_forced = 0 \<rparr>,
                     trace = [Log INFO
                       (''WARNING: x86_64 package 'foo' installed version 1.0-r2 is newer, than'' @
                        '' the version in the repositories: 1.0-r1'' @
                        '' See also: <https://postmarketos.org/warning-repo>'')],
                     apk_repository_list_updated = [], apk_min_version_checked = [] \<rparr>)"
    using install_is_necessary_compares_versions
            [where E = ?E and package = "''foo''" and packages_installed = ?iC
               and v_installed = "''1.0-r2''" and v_repo = "''1.0-r1''",
             OF nobang _ stepC idx]
    by (simp add: demo_env_with_def demo_env_def demo_state_def)
  have Q: "install_is_necessary ?E False ''x86_64'' ''foo'' ?iE (demo_state []) =
             Some (Inr (Some False), demo_state [])"
    using install_is_necessary_compares_versions
            [where E = ?E and package = "''foo''" and packages_installed = ?iE
               and v_installed = "''1.0-r1''" and v_repo = "''1.0-r1''",
             OF nobang _ stepC idx]
    by (simp add: demo_env_with_def demo_env_def demo_float_def)
  have O: "install_is_necessary ?F False ''x86_64'' ''foo'' ?iE (demo_state []) =
             Some (Inr (Some False), demo_state [])"
    using install_is_necessary_compares_versions
            [where E = ?F and package = "''foo''" and packages_installed = ?iE
               and v_installed = "''1.0-r1''" and v_repo = "''1.0-r1''",
             OF nobang _ stepC idxF]
    by (simp add: demo_env_with_def demo_env_def demo_float_def)
  have N: "install_is_necessary ?E False ''x86_64'' ''foo'' ?iN (demo_state []) =
             Some (Inr (Some True), demo_state [])"
    using install_is_necessary_compares_versions
            [where E = ?E and package = "''foo''" and packages_installed = ?iN
               and v_installed = "''1.0-r0''" and v_repo = "''1.0-r1''",
             OF nobang _ stepC idx]
    by (simp add: demo_env_with_def demo_env_def)
  from B C Q O N show ?thesis by simp
qed

text \<open>
  Claim C6 says that the evaluation is re-run at most once after a forced rebuild, and
  fails if the index entry is still absent then. It is not so: with an index in which
  the package appears after the second forced rebuild, the function forces two rebuilds,
  evaluates three times and returns True.
\<close>

theorem forced_rebuild_twice_counterexample:
  "install_is_necessary demo_env_late True ''x86_64'' ''foo''
     [''foo'' \<mapsto> [(''version'', ''1.0-r1''), (''timestamp'', ''100.0'')]] (demo_state []) =
   Some (Inr (Some True),
     \<lparr>world = \<lparr>dw_files = [], dw_forced = 2\<rparr>,
      trace = [BuildPackage ''foo'' ''x86_64'' False,
               Log WARNING (msg_not_built ''foo'' ''x86_64''),
               BuildPackage ''foo'' ''x86_64'' True,
               BuildPackage ''foo'' ''x86_64'' False,
               Log WARNING (msg_not_built ''foo'' ''x86_64''),
               BuildPackage ''foo'' ''x86_64'' True,
               BuildPackage ''foo'' ''x86_64'' False],
      apk_repository_list_updated = [], apk_min_version_checked = []\<rparr>)"
  by (simp add: install_is_necessary.simps demo_state_def demo_env_late_def demo_env_def
        startswith_def build_step_def build_disabled_def call_build_package_def effect_def
        record_event_def falsy_entry_def logging_def compare_installed_def getitem_def
        demo_float_def)

text \<open>
  In the small environment the index has no entry at all: the first evaluation leads to
  a second one after one forced rebuild, and the call does not return.
\<close>

theorem forced_rebuild_reruns_unbounded_witness:
  "install_is_necessary demo_env True ''x86_64'' ''foo''
     [''foo'' \<mapsto> [(''version'', ''1.0-r1''), (''timestamp'', ''100.0'')]] (demo_state []) =
   install_is_necessary demo_env True ''x86_64'' ''foo''
     [''foo'' \<mapsto> [(''version'', ''1.0-r1''), (''timestamp'', ''100.0'')]]
     \<lparr> world = \<lparr> dw_files = [], dw_forced = 1 \<rparr>,
       trace = [BuildPackage ''foo'' ''x86_64'' False,
                Log WARNING (msg_not_built ''foo'' ''x86_64''),
                BuildPackage ''foo'' ''x86_64'' True],
       apk_repository_list_updated = [], apk_min_version_checked = [] \<rparr>
   \<and> install_is_necessary demo_env True ''x86_64'' ''foo''
     [''foo'' \<mapsto> [(''version'', ''1.0-r1''), (''timestamp'', ''100.0'')]] (demo_state []) = None"
proof -
  let ?inst = "[''foo'' \<mapsto> [(''version'', ''1.0-r1''), (''timestamp'', ''100.0'')]]"
  let ?s1 = "record_event (BuildPackage ''foo'' ''x86_64'' False) (demo_state [])"
  have nobang: "\<not> startswith ''foo'' (CHR ''!'')"
    by (simp add: startswith_def)
  have en: "\<not> build_disabled demo_env"
    by (simp add: build_disabled_def demo_env_def)
  have absent: "\<forall>w. falsy_entry (apkindex_package demo_env w ''foo'' ''x86_64'')"
    by (simp add: falsy_entry_def demo_env_def)
  have builds: "\<forall>w force. \<exists>w'. build_package demo_env w ''foo'' ''x86_64'' force = Inr w'"
    by (simp add: demo_env_def)
  have step: "build_step demo_env True ''x86_64'' ''foo'' (demo_state []) = (Inr (), ?s1)"
    by (simp add: build_step_def build_disabled_def call_build_package_def effect_def
          demo_env_def demo_state_def record_event_def)
  have forced: "call_build_package demo_env ''foo'' ''x86_64'' True
                  (logging WARNING (msg_not_built ''foo'' ''x86_64'') ?s1) =
                (Inr (),
                 \<lparr> world = \<lparr> dw_files = [], dw_forced = 1 \<rparr>,
                   trace = [BuildPackage ''foo'' ''x86_64'' False,
                            Log WARNING (msg_not_built ''foo'' ''x86_64''),
                            BuildPackage ''foo'' ''x86_64'' True],
                   apk_repository_list_updated = [], apk_min_version_checked = [] \<rparr>)"
    by (simp add: call_build_package_def effect_def logging_def record_event_def
          demo_env_def demo_state_def)
  note unfolded = forced_rebuild_reruns_unbounded
            [where E = demo_env and package = "''foo''" and arch = "''x86_64''" and build = True
               and packages_installed = ?inst,
             OF nobang _ en]
  have again: "install_is_necessary demo_env True ''x86_64'' ''foo'' ?inst (demo_state []) =
               install_is_necessary demo_env True ''x86_64'' ''foo'' ?inst
                 \<lparr> world = \<lparr> dw_files = [], dw_forced = 1 \<rparr>,
                   trace = [BuildPackage ''foo'' ''x86_64'' False,
                            Log WARNING (msg_not_built ''foo'' ''x86_64''),
                            BuildPackage ''foo'' ''x86_64'' True],
                   apk_repository_list_updated = [], apk_min_version_checked = [] \<rparr>"
    using unfolded step absent forced by simp
  have never: "install_is_necessary demo_env True ''x86_64'' ''foo'' ?inst (demo_state []) = None"
    using unfolded absent builds by simp
  from again never show ?thesis by simp
qed

subsection \<open>update_repository_list\<close>

lemma effect_cache [simp]:
  "effect ev r s = (x, s') \<Longrightarrow>
     apk_repository_list_updated s' = apk_repository_list_updated s"
  by (auto simp: effect_def record_event_def split: sum.splits)

lemma read_old_entries_cache:
  "read_old_entries E suffix s = (x, s') \<Longrightarrow>
     apk_repository_list_updated s' = apk_repository_list_updated s"
  by (auto simp: read_old_entries_def Let_def call_run_root_def
           split: if_splits sum.splits prod.splits)

lemma append_lines_cache:
  "append_lines E path ls s = (x, s') \<Longrightarrow>
     apk_repository_list_updated s' = apk_repository_list_updated s"
proof (induction ls arbitrary: s)
  case Nil
  then show ?case by simp
next
  case (Cons l ls)
  then show ?case
    by (auto simp: call_run_root_def split: prod.splits sum.splits)
qed

lemma update_file_cache:
  "update_file E suffix ls s = (x, s') \<Longrightarrow>
     apk_repository_list_updated s' = apk_repository_list_updated s"
  by (auto simp: update_file_def Let_def call_run_root_def logging_def record_event_def
           split: if_splits sum.splits prod.splits dest!: append_lines_cache)

lemma update_repository_list_marks:
  "update_repository_list E suffix check s = (Inr (), s') \<Longrightarrow>
     suffix \<in> set (apk_repository_list_updated s')"
proof (induction E suffix check s rule: update_repository_list.induct)
  case (1 E suffix check s)
  from "1.prems" show ?case
    apply (subst (asm) update_repository_list.simps)
    apply (auto simp: mark_repository_list_updated_def Let_def
                split: if_splits prod.splits sum.splits dest: "1.IH")
    done
qed

text \<open>
  Claim C8. After a call of \<open>update_repository_list\<close> that has returned without an error,
  a second call for the same suffix returns at once and leaves the state as it is: the
  world (the file system) is the same and the trace has no new privileged command.
\<close>

theorem second_call_changes_nothing:
  assumes "update_repository_list E suffix check s = (Inr (), s')"
  shows "update_repository_list E suffix check' s' = (Inr (), s')"
  using update_repository_list_marks[OF assms]
  by (subst update_repository_list.simps) simp


lemma call_run_root_trace:
  "call_run_root E cmd s = (x, s') \<Longrightarrow> trace s' = trace s @ [RunRoot cmd]"
  by (auto simp: call_run_root_def effect_def record_event_def split: sum.splits)

lemma append_lines_trace:
  "append_lines E path ls s = (Inr (), s') \<Longrightarrow>
     trace s' = trace s @
       map (\<lambda>line. RunRoot [''sh'', ''-c'', ''echo '' @ shlex_quote line @ '' >> '' @ path]) ls"
proof (induction ls arbitrary: s)
  case Nil
  then show ?case by simp
next
  case (Cons l ls)
  let ?cmd = "[''sh'', ''-c'', ''echo '' @ shlex_quote l @ '' >> '' @ path]"
  obtain x s1 where c: "call_run_root E ?cmd s = (x, s1)"
    by (cases "call_run_root E ?cmd s") auto
  with Cons.prems obtain u where x: "x = Inr u" and rest: "append_lines E path ls s1 = (Inr (), s')"
    by (cases x) auto
  from call_run_root_trace[OF c] Cons.IH[OF rest] show ?case by simp
qed


lemma update_file_trace:
  assumes "update_file E suffix ls s = (Inr (), s')"
  shows "trace s' = trace s @
       [Log DEBUG (''('' @ suffix @ '') update /etc/apk/repositories'')] @
       (if path_exists E (world s) (repositories_path E suffix)
        then [RunRoot [''rm'', repositories_path E suffix]] else []) @
       map (\<lambda>line. RunRoot [''sh'', ''-c'',
              ''echo '' @ shlex_quote line @ '' >> '' @ repositories_path E suffix]) ls"
proof -
  let ?path = "repositories_path E suffix"
  let ?s1 = "logging DEBUG (''('' @ suffix @ '') update /etc/apk/repositories'') s"
  have t1: "trace ?s1 = trace s @ [Log DEBUG (''('' @ suffix @ '') update /etc/apk/repositories'')]"
    and w1: "world ?s1 = world s"
    by (simp_all add: logging_def record_event_def)
  show ?thesis
  proof (cases "path_exists E (world s) ?path")
    case True
    obtain x s2 where c: "call_run_root E [''rm'', ?path] ?s1 = (x, s2)"
      by (cases "call_run_root E [''rm'', ?path] ?s1") auto
    with assms True w1 obtain u where "x = Inr u"
      and rest: "append_lines E ?path ls s2 = (Inr (), s')"
      by (cases x) (auto simp: update_file_def Let_def)
    from call_run_root_trace[OF c] append_lines_trace[OF rest] t1 True show ?thesis by simp
  next
    case False
    with assms w1 have rest: "append_lines E ?path ls ?s1 = (Inr (), s')"
      by (simp add: update_file_def Let_def)
    from append_lines_trace[OF rest] t1 False show ?thesis by simp
  qed
qed

lemma read_old_entries_trace:
  "read_old_entries E suffix s = (Inr ls, s') \<Longrightarrow>
     trace s' = trace s @
       (if path_exists E (world s) (repositories_path E suffix) then []
        else [RunRoot [''mkdir'', ''-p'', repositories_dir E suffix]])"
  by (auto simp: read_old_entries_def Let_def call_run_root_def effect_def record_event_def
           split: if_splits sum.splits prod.splits)

text \<open>
  Claim C7. The suffix is not in the session cache, the lines read differ from the
  desired list, and the privileged commands that rewrite the file have returned (in the
  state \<open>s2\<close>). Then the lines are read and compared once more, and the call ends there:
  with the suffix appended to the session cache when the lines now equal the desired
  list, and with the error \<^verbatim>\<open>Failed to update:\<close> followed by the path of the file
  otherwise, in the state that the second reading has left. The
  trace shows one rewrite (the \<^verbatim>\<open>rm\<close> of an existing file and one \<^verbatim>\<open>echo\<close> for each line)
  and nothing after it but the \<^verbatim>\<open>mkdir\<close> of the second reading when the file is missing.
\<close>

theorem update_repository_list_verifies_once:
  assumes fresh: "suffix \<notin> set (apk_repository_list_updated s)"
    and old: "read_old_entries E suffix s = (Inr lines_old, s1)"
    and differs: "lines_old \<noteq> repo_urls E (world s1)"
    and rewrite: "update_file E suffix (repo_urls E (world s1)) s1 = (Inr (), s2)"
    and reread: "read_old_entries E suffix s2 = (Inr lines_check, s3)"
  shows "update_repository_list E suffix False s =
           (if lines_check = repo_urls E (world s3)
            then (Inr (),
                  s3\<lparr>apk_repository_list_updated := apk_repository_list_updated s3 @ [suffix]\<rparr>)
            else (Inl (RuntimeError (''Failed to update: '' @ work E @ ''/chroot_'' @ suffix @
                                     ''/etc/apk/repositories'')), s3))
       \<and> trace s3 = trace s1 @
           [Log DEBUG (''('' @ suffix @ '') update /etc/apk/repositories'')] @
           (if path_exists E (world s1) (repositories_path E suffix)
            then [RunRoot [''rm'', repositories_path E suffix]] else []) @
           map (\<lambda>line. RunRoot [''sh'', ''-c'',
                  ''echo '' @ shlex_quote line @ '' >> '' @ repositories_path E suffix])
             (repo_urls E (world s1)) @
           (if path_exists E (world s2) (repositories_path E suffix) then []
            else [RunRoot [''mkdir'', ''-p'', repositories_dir E suffix]])"
proof
  have c1: "apk_repository_list_updated s1 = apk_repository_list_updated s"
    using old by (rule read_old_entries_cache)
  have c2: "apk_repository_list_updated s2 = apk_repository_list_updated s1"
    using rewrite by (rule update_file_cache)
  have fresh2: "suffix \<notin> set (apk_repository_list_updated s2)"
    using fresh c1 c2 by simp
  have check: "update_repository_list E suffix True s2 =
           (if lines_check = repo_urls E (world s3)
            then (Inr (),
                  s3\<lparr>apk_repository_list_updated := apk_repository_list_updated s3 @ [suffix]\<rparr>)
            else (Inl (RuntimeError (''Failed to update: '' @ work E @ ''/chroot_'' @ suffix @
                                     ''/etc/apk/repositories'')), s3))"
    using fresh2 reread
    by (subst update_repository_list.simps)
       (simp add: mark_repository_list_updated_def repositories_path_def)
  show "update_repository_list E suffix False s =
           (if lines_check = repo_urls E (world s3)
            then (Inr (),
                  s3\<lparr>apk_repository_list_updated := apk_repository_list_updated s3 @ [suffix]\<rparr>)
            else (Inl (RuntimeError (''Failed to update: '' @ work E @ ''/chroot_'' @ suffix @
                                     ''/etc/apk/repositories'')), s3))"
    using fresh old differs rewrite check by (subst update_repository_list.simps) simp
  show "trace s3 = trace s1 @
           [Log DEBUG (''('' @ suffix @ '') update /etc/apk/repositories'')] @
           (if path_exists E (world s1) (repositories_path E suffix)
            then [RunRoot [''rm'', repositories_path E suffix]] else []) @
           map (\<lambda>line. RunRoot [''sh'', ''-c'',
                  ''echo '' @ shlex_quote line @ '' >> '' @ repositories_path E suffix])
             (repo_urls E (world s1)) @
           (if path_exists E (world s2) (repositories_path E suffix) then []
            else [RunRoot [''mkdir'', ''-p'', repositories_dir E suffix]])"
    using update_file_trace[OF rewrite] read_old_entries_trace[OF reread] by simp
qed



text \<open>Scenario A, and the call that follows it.\<close>

theorem second_call_changes_nothing_witness:
  "update_repository_list demo_env ''native'' False (demo_state []) = (Inr (), demo_synced)
   \<and> update_repository_list demo_env ''native'' False demo_synced = (Inr (), demo_synced)"
proof -
  have first: "update_repository_list demo_env ''native'' False (demo_state []) =
                 (Inr (), demo_synced)"
    by code_simp
  from first second_call_changes_nothing [OF first] show ?thesis by simp
qed

text \<open>
  A rewrite that succeeds, and one whose privileged commands leave the file system as it
  was.
\<close>

theorem update_repository_list_verifies_once_witness:
  "update_repository_list demo_env ''native'' False (demo_state []) =
     (Inr (),
      \<lparr> world = \<lparr> dw_files = [(''/w/chroot_native/etc/apk/repositories'',
                                 ''https://mirror/a'' @ [LF] @ ''https://mirror/b'' @ [LF])],
                  dw_forced = 0 \<rparr>,
        trace = [RunRoot [''mkdir'', ''-p'', ''/w/chroot_native/etc/apk''],
                 Log DEBUG ''(native) update /etc/apk/repositories'',
                 RunRoot [''sh'', ''-c'',
                   ''echo https://mirror/a >> /w/chroot_native/etc/apk/repositories''],
                 RunRoot [''sh'', ''-c'',
                   ''echo https://mirror/b >> /w/chroot_native/etc/apk/repositories'']],
        apk_repository_list_updated = [''native''], apk_min_version_checked = [] \<rparr>)
   \<and> update_repository_list demo_env_readonly ''native'' False (demo_state []) =
     (Inl (RuntimeError ''Failed to update: /w/chroot_native/etc/apk/repositories''),
      \<lparr> world = \<lparr> dw_files = [], dw_forced = 0 \<rparr>,
        trace = [RunRoot [''mkdir'', ''-p'', ''/w/chroot_native/etc/apk''],
                 Log DEBUG ''(native) update /etc/apk/repositories'',
                 RunRoot [''sh'', ''-c'',
                   ''echo https://mirror/a >> /w/chroot_native/etc/apk/repositories''],
                 RunRoot [''sh'', ''-c'',
                   ''echo https://mirror/b >> /w/chroot_native/etc/apk/repositories''],
                 RunRoot [''mkdir'', ''-p'', ''/w/chroot_native/etc/apk'']],
        apk_repository_list_updated = [], apk_min_version_checked = [] \<rparr>)"
proof -
  let ?s = "demo_state [] :: demo_world state"
  let ?urls = "[''https://mirror/a'', ''https://mirror/b'']"
  let ?s1 = "\<lparr> world = \<lparr> dw_files = [], dw_forced = 0 \<rparr>,
               trace = [RunRoot [''mkdir'', ''-p'', ''/w/chroot_native/etc/apk'']],
               apk_repository_list_updated = [], apk_min_version_checked = [] \<rparr>"
  let ?s2 = "\<lparr> world = \<lparr> dw_files = [(''/w/chroot_native/etc/apk/repositories'',
                                 ''https://mirror/a'' @ [LF] @ ''https://mirror/b'' @ [LF])],
                  dw_forced = 0 \<rparr>,
        trace = [RunRoot [''mkdir'', ''-p'', ''/w/chroot_native/etc/apk''],
                 Log DEBUG ''(native) update /etc/apk/repositories'',
                 RunRoot [''sh'', ''-c'',
                   ''echo https://mirror/a >> /w/chroot_native/etc/apk/repositories''],
                 RunRoot [''sh'', ''-c'',
                   ''echo https://mirror/b >> /w/chroot_native/etc/apk/repositories'']],
        apk_repository_list_updated = [], apk_min_version_checked = [] \<rparr>"
  let ?r2 = "\<lparr> world = \<lparr> dw_files = [], dw_forced = 0 \<rparr>,
        trace = [RunRoot [''mkdir'', ''-p'', ''/w/chroot_native/etc/apk''],
                 Log DEBUG ''(native) update /etc/apk/repositories'',
                 RunRoot [''sh'', ''-c'',
                   ''echo https://mirror/a >> /w/chroot_native/etc/apk/repositories''],
                 RunRoot [''sh'', ''-c'',
                   ''echo https://mirror/b >> /w/chroot_native/etc/apk/repositories'']],
        apk_repository_list_updated = [], apk_min_version_checked = [] \<rparr>"
  let ?r3 = "\<lparr> world = \<lparr> dw_files = [], dw_forced = 0 \<rparr>,
        trace = [RunRoot [''mkdir'', ''-p'', ''/w/chroot_native/etc/apk''],
                 Log DEBUG ''(native) update /etc/apk/repositories'',
                 RunRoot [''sh'', ''-c'',
                   ''echo https://mirror/a >> /w/chroot_native/etc/apk/repositories''],
                 RunRoot [''sh'', ''-c'',
                   ''echo https://mirror/b >> /w/chroot_native/etc/apk/repositories''],
                 RunRoot [''mkdir'', ''-p'', ''/w/chroot_native/etc/apk'']],
        apk_repository_list_updated = [], apk_min_version_checked = [] \<rparr>"
  have fresh: "''native'' \<notin> set (apk_repository_list_updated ?s)"
    by (simp add: demo_state_def)
  have old: "read_old_entries demo_env ''native'' ?s = (Inr [], ?s1)"
    by code_simp
  have differs: "[] \<noteq> repo_urls demo_env (world ?s1)"
    by (simp add: demo_env_def)
  have rewrite: "update_file demo_env ''native'' (repo_urls demo_env (world ?s1)) ?s1 =
                   (Inr (), ?s2)"
    by code_simp
  have reread: "read_old_entries demo_env ''native'' ?s2 = (Inr ?urls, ?s2)"
    by code_simp
  have ok: "update_repository_list demo_env ''native'' False ?s =
              (Inr (), ?s2\<lparr>apk_repository_list_updated := [''native'']\<rparr>)"
    using update_repository_list_verifies_once [OF fresh old differs rewrite reread]
    by (simp add: demo_env_def)
  have old': "read_old_entries demo_env_readonly ''native'' ?s = (Inr [], ?s1)"
    by code_simp
  have differs': "[] \<noteq> repo_urls demo_env_readonly (world ?s1)"
    by (simp add: demo_env_readonly_def demo_env_def)
  have rewrite': "update_file demo_env_readonly ''native''
                    (repo_urls demo_env_readonly (world ?s1)) ?s1 = (Inr (), ?r2)"
    by code_simp
  have reread': "read_old_entries demo_env_readonly ''native'' ?r2 = (Inr [], ?r3)"
    by code_simp
  have failed: "update_repository_list demo_env_readonly ''native'' False ?s =
                  (Inl (RuntimeError ''Failed to update: /w/chroot_native/etc/apk/repositories''),
                   ?r3)"
    using update_repository_list_verifies_once [OF fresh old' differs' rewrite' reread']
    by (simp add: demo_env_readonly_def demo_env_def)
  from ok failed show ?thesis by simp
qed

subsection \<open>Reading the repository list line by line\<close>

lemma universal_newlines_no_CR: "CR \<notin> set (universal_newlines c)"
  by (induction c rule: universal_newlines.induct) auto

lemma universal_newlines_id: "CR \<notin> set c \<Longrightarrow> universal_newlines c = c"
  by (induction c rule: universal_newlines.induct) auto

lemma lines_from_chars:
  "l \<in> set (lines_from cur cs) \<Longrightarrow> set l \<subseteq> set cur \<union> set cs"
proof (induction cs arbitrary: cur)
  case Nil
  then show ?case by (auto split: if_splits)
next
  case (Cons c cs)
  show ?case
  proof (cases "c = LF")
    case True
    with Cons.prems have "l = cur @ [c] \<or> l \<in> set (lines_from [] cs)" by simp
    then show ?thesis using Cons.IH[of "[]"] by auto
  next
    case False
    with Cons.prems have "l \<in> set (lines_from (cur @ [c]) cs)" by simp
    from Cons.IH[OF this] show ?thesis by auto
  qed
qed

lemma lines_from_butlast_no_LF:
  "LF \<notin> set cur \<Longrightarrow> l \<in> set (lines_from cur cs) \<Longrightarrow> LF \<notin> set (butlast l)"
proof (induction cs arbitrary: cur)
  case Nil
  then show ?case by (auto split: if_splits dest: in_set_butlastD)
next
  case (Cons c cs)
  show ?case
  proof (cases "c = LF")
    case True
    with Cons.prems have "l = cur @ [c] \<or> l \<in> set (lines_from [] cs)" by simp
    then show ?thesis
    proof
      assume "l = cur @ [c]"
      with Cons.prems(1) show ?thesis by simp
    next
      assume "l \<in> set (lines_from [] cs)"
      then show ?thesis using Cons.IH[of "[]"] by simp
    qed
  next
    case False
    with Cons.prems have "l \<in> set (lines_from (cur @ [c]) cs)" by simp
    moreover from False Cons.prems(1) have "LF \<notin> set (cur @ [c])" by simp
    ultimately show ?thesis by (rule Cons.IH[rotated])
  qed
qed

lemma read_lines_old_no_breaks:
  assumes "u \<in> set (read_lines_old content)"
  shows "LF \<notin> set u \<and> CR \<notin> set u"
proof -
  from assms obtain l where l: "l \<in> set (lines_from [] (universal_newlines content))"
    and u: "u = butlast l"
    by (auto simp: read_lines_old_def file_lines_def)
  from lines_from_butlast_no_LF[OF _ l] have "LF \<notin> set u" using u by simp
  moreover from lines_from_chars[OF l] universal_newlines_no_CR[of content]
  have "CR \<notin> set l" by auto
  then have "CR \<notin> set u" using u by (auto dest: in_set_butlastD)
  ultimately show ?thesis by simp
qed

lemma lines_from_line:
  "LF \<notin> set u \<Longrightarrow> lines_from cur (u @ LF # rest) = (cur @ u @ [LF]) # lines_from [] rest"
  by (induction u arbitrary: cur) auto

lemma lines_from_last:
  "LF \<notin> set l \<Longrightarrow> lines_from cur l = (if cur @ l = [] then [] else [cur @ l])"
  by (induction l arbitrary: cur) auto

lemma lines_from_concat:
  "\<forall>u\<in>set xs. LF \<notin> set u \<Longrightarrow> LF \<notin> set l \<Longrightarrow>
     lines_from [] (concat (map (\<lambda>u. u @ [LF]) xs) @ l) =
       map (\<lambda>u. u @ [LF]) xs @ (if l = [] then [] else [l])"
proof (induction xs)
  case Nil
  then show ?case by (simp add: lines_from_last)
next
  case (Cons x xs)
  then have "lines_from [] (x @ LF # (concat (map (\<lambda>u. u @ [LF]) xs) @ l)) =
               (x @ [LF]) # lines_from [] (concat (map (\<lambda>u. u @ [LF]) xs) @ l)"
    using lines_from_line[of x "[]"] by simp
  with Cons show ?case by simp
qed

lemma read_lines_old_concat:
  assumes "\<forall>u\<in>set xs. LF \<notin> set u \<and> CR \<notin> set u" and "LF \<notin> set l \<and> CR \<notin> set l"
  shows "read_lines_old (concat (map (\<lambda>u. u @ [LF]) xs) @ l) =
           xs @ (if l = [] then [] else [butlast l])"
proof -
  have "CR \<notin> set (concat (map (\<lambda>u. u @ [LF]) xs) @ l)"
    using assms by auto
  then have "universal_newlines (concat (map (\<lambda>u. u @ [LF]) xs) @ l) =
               concat (map (\<lambda>u. u @ [LF]) xs) @ l"
    by (rule universal_newlines_id)
  moreover have "lines_from [] (concat (map (\<lambda>u. u @ [LF]) xs) @ l) =
       map (\<lambda>u. u @ [LF]) xs @ (if l = [] then [] else [l])"
    using assms by (intro lines_from_concat) auto
  ultimately show ?thesis
    by (simp add: read_lines_old_def file_lines_def comp_def)
qed

lemma unterminated_differs:
  assumes "us \<noteq> []"
  shows "read_lines_old (concat (map (\<lambda>u. u @ [LF]) (butlast us)) @ last us) \<noteq> us"
proof
  let ?content = "concat (map (\<lambda>u. u @ [LF]) (butlast us)) @ last us"
  assume eq: "read_lines_old ?content = us"
  have clean: "\<forall>u\<in>set us. LF \<notin> set u \<and> CR \<notin> set u"
    using read_lines_old_no_breaks[of _ ?content] eq by simp
  have us: "us = butlast us @ [last us]"
    using assms by simp
  have "\<forall>u\<in>set (butlast us). LF \<notin> set u \<and> CR \<notin> set u"
    using clean by (auto dest: in_set_butlastD)
  moreover have "LF \<notin> set (last us) \<and> CR \<notin> set (last us)"
    using clean assms by simp
  ultimately have "read_lines_old ?content =
      butlast us @ (if last us = [] then [] else [butlast (last us)])"
    by (rule read_lines_old_concat)
  then have "butlast us @ (if last us = [] then [] else [butlast (last us)]) =
               read_lines_old ?content"
    by (rule sym)
  also have "\<dots> = us" by (rule eq)
  also have "us = butlast us @ [last us]"
    using assms by (rule append_butlast_last_id[symmetric])
  finally have "(if last us = [] then [] else [butlast (last us)]) = [last us]"
    by (simp only: same_append_eq)
  then have ne: "last us \<noteq> []" and same: "butlast (last us) = last us"
    by (simp_all split: if_splits)
  from same have "length (butlast (last us)) = length (last us)"
    by simp
  then have "length (last us) - 1 = length (last us)"
    by (simp only: length_butlast)
  moreover from ne have "0 < length (last us)"
    by simp
  ultimately show False by arith
qed

lemma terminated_matches:
  assumes "\<forall>u\<in>set us. LF \<notin> set u \<and> CR \<notin> set u"
  shows "read_lines_old (concat (map (\<lambda>u. u @ [LF]) us)) = us"
  using read_lines_old_concat[OF assms, of "[]"] by simp


text \<open>
  Claim C10. Each line is read without its last character: a line that ends with a
  newline loses the newline, and a last line without newline loses a character of its
  own. For a desired list that is not empty, a file that holds the desired lines with
  no newline after the last one is therefore read as a different list; a call for a
  suffix that is not in the session cache then removes the file, writes it again line by
  line, and checks it once more. A file that holds the desired lines is considered
  synchronised only when every line, the last one too, ends with a newline character;
  and it is considered synchronised then, if the lines themselves hold no line break.
\<close>

theorem unterminated_last_line_is_rewritten:
  fixes E :: "'w env" and suffix :: string and path :: string
  defines "path \<equiv> work E @ ''/chroot_'' @ suffix @ ''/etc/apk/repositories''"
  assumes ne: "us \<noteq> []"
  shows "read_lines_old content = map butlast (file_lines content)
       \<and> (\<forall>xs l. (\<forall>u\<in>set xs. LF \<notin> set u \<and> CR \<notin> set u) \<longrightarrow>
                  LF \<notin> set l \<and> CR \<notin> set l \<longrightarrow>
            read_lines_old (concat (map (\<lambda>u. u @ [LF]) xs) @ l) =
              xs @ (if l = [] then [] else [butlast l]))
       \<and> read_lines_old (concat (map (\<lambda>u. u @ [LF]) (butlast us)) @ last us) \<noteq> us
       \<and> (suffix \<notin> set (apk_repository_list_updated s) \<longrightarrow>
          path_exists E (world s) path \<longrightarrow>
          read_text E (world s) path =
            Inr (concat (map (\<lambda>u. u @ [LF]) (butlast us)) @ last us) \<longrightarrow>
          repo_urls E (world s) = us \<longrightarrow>
          (\<forall>s2. update_file E suffix us s = (Inr (), s2) \<longrightarrow>
             update_repository_list E suffix False s = update_repository_list E suffix True s2
             \<and> trace s2 = trace s @
                 [Log DEBUG (''('' @ suffix @ '') update /etc/apk/repositories''),
                  RunRoot [''rm'', path]] @
                 map (\<lambda>line. RunRoot [''sh'', ''-c'',
                        ''echo '' @ shlex_quote line @ '' >> '' @ path]) us)
          \<and> (\<forall>e s2. update_file E suffix us s = (Inl e, s2) \<longrightarrow>
                update_repository_list E suffix False s = (Inl e, s2)))
       \<and> ((\<forall>u\<in>set us. LF \<notin> set u \<and> CR \<notin> set u) \<longrightarrow>
          read_lines_old (concat (map (\<lambda>u. u @ [LF]) us)) = us)"
proof (intro conjI impI allI)
  have path: "path = repositories_path E suffix"
    by (simp add: path_def repositories_path_def)
  show "read_lines_old content = map butlast (file_lines content)"
    by (simp add: read_lines_old_def)
  show "read_lines_old (concat (map (\<lambda>u. u @ [LF]) xs) @ l) =
          xs @ (if l = [] then [] else [butlast l])"
    if "\<forall>u\<in>set xs. LF \<notin> set u \<and> CR \<notin> set u" and "LF \<notin> set l \<and> CR \<notin> set l" for xs l
    using that by (rule read_lines_old_concat)
  show differs: "read_lines_old (concat (map (\<lambda>u. u @ [LF]) (butlast us)) @ last us) \<noteq> us"
    using ne by (rule unterminated_differs)
  show "read_lines_old (concat (map (\<lambda>u. u @ [LF]) us)) = us"
    if "\<forall>u\<in>set us. LF \<notin> set u \<and> CR \<notin> set u"
    using that by (rule terminated_matches)
  assume fresh: "suffix \<notin> set (apk_repository_list_updated s)"
    and ex: "path_exists E (world s) path"
    and rd: "read_text E (world s) path =
               Inr (concat (map (\<lambda>u. u @ [LF]) (butlast us)) @ last us)"
    and urls: "repo_urls E (world s) = us"
  have old: "read_old_entries E suffix s =
               (Inr (read_lines_old (concat (map (\<lambda>u. u @ [LF]) (butlast us)) @ last us)), s)"
    using ex rd path by (simp add: read_old_entries_def)
  have step: "update_repository_list E suffix False s =
            (case update_file E suffix us s of
               (Inl e, s2) \<Rightarrow> (Inl e, s2)
             | (Inr u, s2) \<Rightarrow> update_repository_list E suffix True s2)"
    using fresh old urls differs by (subst update_repository_list.simps) simp
  show "update_repository_list E suffix False s = update_repository_list E suffix True s2"
    if "update_file E suffix us s = (Inr (), s2)" for s2
    using step that by simp
  show "trace s2 = trace s @
                 [Log DEBUG (''('' @ suffix @ '') update /etc/apk/repositories''),
                  RunRoot [''rm'', path]] @
                 map (\<lambda>line. RunRoot [''sh'', ''-c'',
                        ''echo '' @ shlex_quote line @ '' >> '' @ path]) us"
    if "update_file E suffix us s = (Inr (), s2)" for s2
    using update_file_trace[OF that] ex path by simp
  show "update_repository_list E suffix False s = (Inl e, s2)"
    if "update_file E suffix us s = (Inl e, s2)" for e s2
    using step that by simp
qed

text \<open>
  The two mirrors of the small environment: the file without the last newline is
  removed and written again, and the file with it is read as the desired list.
\<close>

theorem unterminated_last_line_is_rewritten_witness:
  "read_lines_old (''https://mirror/a'' @ [LF] @ ''https://mirror/b'') =
     [''https://mirror/a'', ''https://mirror/'']
   \<and> update_repository_list demo_env ''native'' False
       (demo_state [(''/w/chroot_native/etc/apk/repositories'',
                     ''https://mirror/a'' @ [LF] @ ''https://mirror/b'')]) =
     (Inr (),
      \<lparr> world = \<lparr> dw_files = [(''/w/chroot_native/etc/apk/repositories'',
                                 ''https://mirror/a'' @ [LF] @ ''https://mirror/b'' @ [LF])],
                  dw_forced = 0 \<rparr>,
        trace = [Log DEBUG ''(native) update /etc/apk/repositories'',
                 RunRoot [''rm'', ''/w/chroot_native/etc/apk/repositories''],
                 RunRoot [''sh'', ''-c'',
                   ''echo https://mirror/a >> /w/chroot_native/etc/apk/repositories''],
                 RunRoot [''sh'', ''-c'',
                   ''echo https://mirror/b >> /w/chroot_native/etc/apk/repositories'']],
        apk_repository_list_updated = [''native''], apk_min_version_checked = [] \<rparr>)
   \<and> read_lines_old (''https://mirror/a'' @ [LF] @ ''https://mirror/b'' @ [LF]) =
     [''https://mirror/a'', ''https://mirror/b'']"
proof -
  let ?us = "[''https://mirror/a'', ''https://mirror/b'']"
  let ?s = "demo_state [(''/w/chroot_native/etc/apk/repositories'',
                         ''https://mirror/a'' @ [LF] @ ''https://mirror/b'')]"
  let ?s2 = "\<lparr> world = \<lparr> dw_files = [(''/w/chroot_native/etc/apk/repositories'',
                                 ''https://mirror/a'' @ [LF] @ ''https://mirror/b'' @ [LF])],
                  dw_forced = 0 \<rparr>,
        trace = [Log DEBUG ''(native) update /etc/apk/repositories'',
                 RunRoot [''rm'', ''/w/chroot_native/etc/apk/repositories''],
                 RunRoot [''sh'', ''-c'',
                   ''echo https://mirror/a >> /w/chroot_native/etc/apk/repositories''],
                 RunRoot [''sh'', ''-c'',
                   ''echo https://mirror/b >> /w/chroot_native/etc/apk/repositories'']],
        apk_repository_list_updated = [], apk_min_version_checked = [] \<rparr>"
  have ne: "?us \<noteq> []" by simp
  have fresh: "''native'' \<notin> set (apk_repository_list_updated ?s)"
    by (simp add: demo_state_def)
  have ex: "path_exists demo_env (world ?s)
              (work demo_env @ ''/chroot_'' @ ''native'' @ ''/etc/apk/repositories'')"
    by code_simp
  have rd: "read_text demo_env (world ?s)
              (work demo_env @ ''/chroot_'' @ ''native'' @ ''/etc/apk/repositories'') =
              Inr (concat (map (\<lambda>u. u @ [LF]) (butlast ?us)) @ last ?us)"
    by code_simp
  have urls: "repo_urls demo_env (world ?s) = ?us"
    by (simp add: demo_env_def)
  have clean: "\<forall>u\<in>set ?us. LF \<notin> set u \<and> CR \<notin> set u"
    by simp
  have clean1: "\<forall>u\<in>set [''https://mirror/a'']. LF \<notin> set u \<and> CR \<notin> set u"
    by simp
  have clean2: "LF \<notin> set ''https://mirror/b'' \<and> CR \<notin> set ''https://mirror/b''"
    by simp
  have uf: "update_file demo_env ''native'' ?us ?s = (Inr (), ?s2)"
    by code_simp
  have check: "update_repository_list demo_env ''native'' True ?s2 =
                 (Inr (), ?s2\<lparr>apk_repository_list_updated := [''native'']\<rparr>)"
    by code_simp
  note T = unterminated_last_line_is_rewritten [OF ne, of "[]" "''native''" ?s demo_env]
  from T [THEN conjunct2, THEN conjunct1, THEN spec [where x = "[''https://mirror/a'']"],
          THEN spec [where x = "''https://mirror/b''"], THEN mp, THEN mp, OF clean1 clean2]
  have lines: "read_lines_old (''https://mirror/a'' @ [LF] @ ''https://mirror/b'') =
                 [''https://mirror/a'', ''https://mirror/'']"
    by simp
  from T fresh ex rd urls uf
  have "update_repository_list demo_env ''native'' False ?s =
          update_repository_list demo_env ''native'' True ?s2"
    by simp
  with check have run: "update_repository_list demo_env ''native'' False ?s =
                          (Inr (), ?s2\<lparr>apk_repository_list_updated := [''native'']\<rparr>)"
    by simp
  from T clean
  have ok: "read_lines_old (''https://mirror/a'' @ [LF] @ ''https://mirror/b'' @ [LF]) = ?us"
    by simp
  from lines run ok show ?thesis by simp
qed

text \<open>
  The character that a last line without newline loses is one of its own. So a file
  that does not hold the desired lines can be read as the desired list: with the last
  line \<^verbatim>\<open>https://mirror/bX\<close> and no newline after it, the call marks the suffix as
  synchronised and writes nothing.
\<close>

lemma last_line_loses_a_character:
  "update_repository_list demo_env ''native'' False
     (demo_state [(''/w/chroot_native/etc/apk/repositories'',
                   ''https://mirror/a'' @ [LF] @ ''https://mirror/bX'')]) =
     (Inr (),
      mark_repository_list_updated ''native''
        (demo_state [(''/w/chroot_native/etc/apk/repositories'',
                      ''https://mirror/a'' @ [LF] @ ''https://mirror/bX'')]))
   \<and> file_lines (''https://mirror/a'' @ [LF] @ ''https://mirror/bX'') =
       [''https://mirror/a'' @ [LF], ''https://mirror/bX'']
   \<and> repo_urls demo_env
        \<lparr>dw_files = [(''/w/chroot_native/etc/apk/repositories'',
                      ''https://mirror/a'' @ [LF] @ ''https://mirror/bX'')], dw_forced = 0\<rparr> =
       [''https://mirror/a'', ''https://mirror/b'']"
  by code_simp

subsection \<open>replace_aports_packages_with_path\<close>

lemma replace_loop_eq:
  assumes "\<forall>p\<in>set packages. truthy_path (pmaports_find E w p) \<longrightarrow>
             \<not> falsy_entry (apkindex_package E w p arch) \<longrightarrow>
             map_of (the (apkindex_package E w p arch)) ''version'' \<noteq> None"
  shows "replace_loop E suffix arch w ret packages =
     (case List.find (\<lambda>p. truthy_path (pmaports_find E w p) \<and>
                           falsy_entry (apkindex_package E w p arch)) packages of
        Some p \<Rightarrow> Inl (RuntimeError (msg_no_binary_aport p))
      | None \<Rightarrow>
          Inr (ret @ map (\<lambda>p.
                 if truthy_path (pmaports_find E w p) \<and>
                    path_exists E w (work E @ ''/chroot_'' @ suffix @
                      apk_path arch p
                        (the (map_of (the (apkindex_package E w p arch)) ''version'')))
                 then apk_path arch p
                        (the (map_of (the (apkindex_package E w p arch)) ''version''))
                 else p) packages))"
  using assms
proof (induction packages arbitrary: ret)
  case Nil
  then show ?case by simp
next
  case (Cons p ps)
  from Cons.prems have "\<forall>p\<in>set ps. truthy_path (pmaports_find E w p) \<longrightarrow>
             \<not> falsy_entry (apkindex_package E w p arch) \<longrightarrow>
             map_of (the (apkindex_package E w p arch)) ''version'' \<noteq> None"
    by simp
  note IH = Cons.IH[OF this]
  show ?case
  proof (cases "truthy_path (pmaports_find E w p)")
    case False
    then show ?thesis by (simp add: IH split: option.splits)
  next
    case aport: True
    show ?thesis
    proof (cases "falsy_entry (apkindex_package E w p arch)")
      case True
      with aport show ?thesis by simp
    next
      case False
      with aport Cons.prems obtain v
        where v: "map_of (the (apkindex_package E w p arch)) ''version'' = Some v"
        by auto
      with aport False show ?thesis
        by (simp add: IH getitem_def split: option.splits)
    qed
  qed
qed

text \<open>
  Claim C9. Every index entry read here has a version (the hypothesis). When some package
  of the list has a build recipe and no index entry, the function raises the error of
  lines 173 to 179, for the first such package. Otherwise it returns the list in which a
  package with a build recipe is replaced by the path of its package file
  (\<^verbatim>\<open>/mnt/pmbootstrap-packages/<arch>/<package>-<version>.apk\<close>) if and only if that file
  exists inside the chroot, and every other package is left as it is.
\<close>

theorem local_packages_replaced_by_path:
  assumes "\<forall>p\<in>set packages. truthy_path (pmaports_find E w p) \<longrightarrow>
             \<not> falsy_entry (apkindex_package E w p arch) \<longrightarrow>
             map_of (the (apkindex_package E w p arch)) ''version'' \<noteq> None"
  shows "replace_aports_packages_with_path E packages suffix arch w =
     (case List.find (\<lambda>p. truthy_path (pmaports_find E w p) \<and>
                           falsy_entry (apkindex_package E w p arch)) packages of
        Some p \<Rightarrow> Inl (RuntimeError (msg_no_binary_aport p))
      | None \<Rightarrow>
          Inr (map (\<lambda>p.
                 if truthy_path (pmaports_find E w p) \<and>
                    path_exists E w (work E @ ''/chroot_'' @ suffix @
                      apk_path arch p
                        (the (map_of (the (apkindex_package E w p arch)) ''version'')))
                 then apk_path arch p
                        (the (map_of (the (apkindex_package E w p arch)) ''version''))
                 else p) packages))"
  using replace_loop_eq[OF assms, of suffix "[]"]
  by (simp add: replace_aports_packages_with_path_def split: option.splits)

text \<open>
  \<^verbatim>\<open>foo\<close> is built, \<^verbatim>\<open>bar\<close> is in the index but has no package file, \<^verbatim>\<open>baz\<close> has no build
  recipe, \<^verbatim>\<open>qux\<close> has a build recipe and no index entry.
\<close>

theorem local_packages_replaced_by_path_witness:
  "replace_aports_packages_with_path demo_env_aports [''foo'', ''bar'', ''baz'']
     ''native'' ''x86_64'' demo_built =
     Inr [''/mnt/pmbootstrap-packages/x86_64/foo-1.0-r1.apk'', ''bar'', ''baz'']
   \<and> replace_aports_packages_with_path demo_env_aports [''foo'', ''qux'', ''baz'']
     ''native'' ''x86_64'' demo_built =
     Inl (RuntimeError (msg_no_binary_aport ''qux''))"
proof -
  have idx: "apkindex_package demo_env_aports w p a =
               map_of [(''foo'', [(''version'', ''1.0-r1''), (''timestamp'', ''200.0'')]),
                       (''bar'', [(''version'', ''2.1-r0''), (''timestamp'', ''100.0'')])] p"
    for w p a
    by (simp add: demo_env_aports_def demo_env_with_def)
  have find: "pmaports_find demo_env_aports w p =
                (if p \<in> set [''foo'', ''bar'', ''qux''] then Some (''/aports/main/'' @ p)
                 else None)" for w p
    by (simp add: demo_env_aports_def)
  have ex: "path_exists demo_env_aports demo_built q =
              (q = ''/w/chroot_native/mnt/pmbootstrap-packages/x86_64/foo-1.0-r1.apk'')" for q
    by (auto simp: demo_env_aports_def demo_env_with_def demo_env_def demo_built_def)
  have wk: "work demo_env_aports = ''/w''"
    by (simp add: demo_env_aports_def demo_env_with_def demo_env_def)
  have h1: "\<forall>p\<in>set [''foo'', ''bar'', ''baz''].
              truthy_path (pmaports_find demo_env_aports demo_built p) \<longrightarrow>
              \<not> falsy_entry (apkindex_package demo_env_aports demo_built p ''x86_64'') \<longrightarrow>
              map_of (the (apkindex_package demo_env_aports demo_built p ''x86_64''))
                ''version'' \<noteq> None"
    by (simp add: idx find truthy_path_def falsy_entry_def)
  have h2: "\<forall>p\<in>set [''foo'', ''qux'', ''baz''].
              truthy_path (pmaports_find demo_env_aports demo_built p) \<longrightarrow>
              \<not> falsy_entry (apkindex_package demo_env_aports demo_built p ''x86_64'') \<longrightarrow>
              map_of (the (apkindex_package demo_env_aports demo_built p ''x86_64''))
                ''version'' \<noteq> None"
    by (simp add: idx find truthy_path_def falsy_entry_def)
  from local_packages_replaced_by_path [OF h1, of "''native''"]
       local_packages_replaced_by_path [OF h2, of "''native''"]
  show ?thesis
    by (simp add: idx find ex wk truthy_path_def falsy_entry_def apk_path_def)
qed

subsection \<open>install\<close>

lemma apk_invocations_logging [simp]:
  "apk_invocations (logging l msg s) = apk_invocations s"
  by (simp add: apk_invocations_def logging_def record_event_def)

lemma apk_invocations_build:
  "call_build_package E package arch force s = (x, s') \<Longrightarrow>
     apk_invocations s' = apk_invocations s"
  by (auto simp: call_build_package_def effect_def apk_invocations_def record_event_def
           split: sum.splits)

lemma apk_invocations_build_step:
  "build_step E build arch package s = (x, s') \<Longrightarrow> apk_invocations s' = apk_invocations s"
  by (auto simp: build_step_def split: if_splits dest: apk_invocations_build)

lemma apk_invocations_compare:
  "compare_installed E arch package d_installed d_repo s = (x, s') \<Longrightarrow>
     apk_invocations s' = apk_invocations s"
  by (auto simp: compare_installed_def Let_def split: sum.splits option.splits if_splits)

lemma apk_invocations_necessary_aux:
  assumes ret: "install_is_necessary E0 build0 arch0 package0 inst0 s0 = Some y0"
  shows "apk_invocations (snd y0) = apk_invocations s0"
  apply (rule install_is_necessary.raw_induct
           [where P = "\<lambda>E build arch package inst s y. apk_invocations (snd y) = apk_invocations s",
            rotated -1, OF ret])
  subgoal premises prems for f E build arch package inst s y
  proof (cases "startswith package (CHR ''!'')")
    case True
    with prems(2) show ?thesis by auto
  next
    case nobang: False
    obtain x s1 where bs: "build_step E build arch package s = (x, s1)"
      by (cases "build_step E build arch package s") auto
    note inv1 = apk_invocations_build_step[OF bs]
    show ?thesis
    proof (cases x)
      case (Inl e)
      with prems(2) nobang bs inv1 show ?thesis by auto
    next
      case (Inr u)
      show ?thesis
      proof (cases "inst package")
        case None
        with prems(2) nobang bs Inr inv1 show ?thesis by auto
      next
        case (Some data_installed)
        show ?thesis
        proof (cases "falsy_entry (apkindex_package E (world s1) package arch)")
          case False
          with prems(2) nobang bs Inr Some
          have "compare_installed E arch package data_installed
                  (the (apkindex_package E (world s1) package arch)) s1 = y"
            by simp
          then have "apk_invocations (snd y) = apk_invocations s1"
            by (cases y) (auto dest: apk_invocations_compare)
          with inv1 show ?thesis by simp
        next
          case absent: True
          show ?thesis
          proof (cases "build_disabled E")
            case True
            with prems(2) nobang bs Inr Some absent inv1 show ?thesis by auto
          next
            case False
            obtain x2 s2 where fb: "call_build_package E package arch True
                      (logging WARNING (msg_not_built package arch) s1) = (x2, s2)"
              by (cases "call_build_package E package arch True
                      (logging WARNING (msg_not_built package arch) s1)") auto
            from apk_invocations_build[OF fb] inv1
            have inv2: "apk_invocations s2 = apk_invocations s" by simp
            show ?thesis
            proof (cases x2)
              case (Inl e)
              with prems(2) nobang bs Inr Some absent False fb inv2 show ?thesis by auto
            next
              case r: (Inr u2)
              with prems(2) nobang bs Inr Some absent False fb
              have "f E build arch package inst s2 = Some y" by simp
              from prems(1)[OF this] inv2 show ?thesis by simp
            qed
          qed
        qed
      qed
    qed
  qed
  done

lemma apk_invocations_necessary:
  "install_is_necessary E build arch package inst s = Some (x, s') \<Longrightarrow>
     apk_invocations s' = apk_invocations s"
  using apk_invocations_necessary_aux by fastforce

lemma apk_invocations_filter_outdated:
  "filter_outdated E build arch inst toadd todel packages s = Some (x, s') \<Longrightarrow>
     apk_invocations s' = apk_invocations s"
proof (induction packages arbitrary: toadd todel s)
  case Nil
  then show ?case by simp
next
  case (Cons p ps)
  from Cons.prems obtain r s1
    where nec: "install_is_necessary E build arch p inst s = Some (r, s1)"
    by (cases "install_is_necessary E build arch p inst s") auto
  note inv1 = apk_invocations_necessary[OF nec]
  show ?case
  proof (cases r)
    case (Inl e)
    with Cons.prems nec inv1 show ?thesis by simp
  next
    case (Inr necessary)
    with Cons.prems nec
    have "\<exists>toadd' todel'. filter_outdated E build arch inst toadd' todel' ps s1 = Some (x, s')"
      by (auto split: if_splits)
    then obtain toadd' todel'
      where "filter_outdated E build arch inst toadd' todel' ps s1 = Some (x, s')"
      by blast
    from Cons.IH[OF this] inv1 show ?thesis by simp
  qed
qed

lemma apk_invocations_check_min_version:
  "check_min_version E suffix s = (x, s') \<Longrightarrow> apk_invocations s' = apk_invocations s"
  by (auto simp: check_min_version_def apk_invocations_def logging_def record_event_def
           split: if_splits sum.splits option.splits)

lemma apk_invocations_chroot_init:
  "call_chroot_init E suffix s = (x, s') \<Longrightarrow> apk_invocations s' = apk_invocations s"
  by (auto simp: call_chroot_init_def effect_def apk_invocations_def record_event_def
           split: sum.splits)

lemma apk_invocations_prepare:
  assumes "install_prepare E packages suffix build s = Some (x, s')"
  shows "apk_invocations s' = apk_invocations s"
proof -
  obtain x1 s1 where c1: "check_min_version E suffix s = (x1, s1)"
    by (cases "check_min_version E suffix s") auto
  obtain x2 s2 where c2: "call_chroot_init E suffix s1 = (x2, s2)"
    by (cases "call_chroot_init E suffix s1") auto
  note i1 = apk_invocations_check_min_version[OF c1]
  note i2 = apk_invocations_chroot_init[OF c2]
  from assms c1 c2 i1 i2 show ?thesis
    by (auto simp: install_prepare_def
             split: sum.splits option.splits prod.splits
             dest!: apk_invocations_filter_outdated)
qed


lemma prepared_from_refl [simp]: "prepared_from s s"
  by (simp add: prepared_from_def)

lemma prepared_from_trans:
  "prepared_from s s1 \<Longrightarrow> prepared_from s1 s2 \<Longrightarrow> prepared_from s s2"
  by (auto simp: prepared_from_def)

lemma prepared_from_logging [simp]: "prepared_from s (logging l msg s)"
  by (simp add: prepared_from_def logging_def record_event_def)

lemma prepared_from_build:
  "call_build_package E package arch force s = (x, s') \<Longrightarrow> prepared_from s s'"
  by (auto simp: call_build_package_def effect_def prepared_from_def record_event_def
           split: sum.splits)

lemma prepared_from_build_step:
  "build_step E build arch package s = (x, s') \<Longrightarrow> prepared_from s s'"
  by (auto simp: build_step_def split: if_splits dest: prepared_from_build)

lemma prepared_from_compare:
  "compare_installed E arch package d_installed d_repo s = (x, s') \<Longrightarrow> prepared_from s s'"
  by (auto simp: compare_installed_def Let_def split: sum.splits option.splits if_splits)

lemma prepared_from_necessary_aux:
  assumes ret: "install_is_necessary E0 build0 arch0 package0 inst0 s0 = Some y0"
  shows "prepared_from s0 (snd y0)"
  apply (rule install_is_necessary.raw_induct
           [where P = "\<lambda>E build arch package inst s y. prepared_from s (snd y)",
            rotated -1, OF ret])
  subgoal premises prems for f E build arch package inst s y
  proof (cases "startswith package (CHR ''!'')")
    case True
    with prems(2) show ?thesis by auto
  next
    case nobang: False
    obtain x s1 where bs: "build_step E build arch package s = (x, s1)"
      by (cases "build_step E build arch package s") auto
    note inv1 = prepared_from_build_step[OF bs]
    show ?thesis
    proof (cases x)
      case (Inl e)
      with prems(2) nobang bs inv1 show ?thesis by auto
    next
      case (Inr u)
      show ?thesis
      proof (cases "inst package")
        case None
        with prems(2) nobang bs Inr inv1 show ?thesis by auto
      next
        case (Some data_installed)
        show ?thesis
        proof (cases "falsy_entry (apkindex_package E (world s1) package arch)")
          case False
          with prems(2) nobang bs Inr Some
          have "compare_installed E arch package data_installed
                  (the (apkindex_package E (world s1) package arch)) s1 = y"
            by simp
          then have "prepared_from s1 (snd y)"
            by (cases y) (auto dest: prepared_from_compare)
          with inv1 show ?thesis by (rule prepared_from_trans)
        next
          case absent: True
          show ?thesis
          proof (cases "build_disabled E")
            case True
            with prems(2) nobang bs Inr Some absent inv1 show ?thesis by auto
          next
            case False
            obtain x2 s2 where fb: "call_build_package E package arch True
                      (logging WARNING (msg_not_built package arch) s1) = (x2, s2)"
              by (cases "call_build_package E package arch True
                      (logging WARNING (msg_not_built package arch) s1)") auto
            have "prepared_from s1 s2"
              using prepared_from_logging prepared_from_build[OF fb]
              by (rule prepared_from_trans)
            with inv1 have inv2: "prepared_from s s2" by (rule prepared_from_trans)
            show ?thesis
            proof (cases x2)
              case (Inl e)
              with prems(2) nobang bs Inr Some absent False fb inv2 show ?thesis by auto
            next
              case r: (Inr u2)
              with prems(2) nobang bs Inr Some absent False fb
              have "f E build arch package inst s2 = Some y" by simp
              from inv2 prems(1)[OF this] show ?thesis by (rule prepared_from_trans)
            qed
          qed
        qed
      qed
    qed
  qed
  done

lemma prepared_from_necessary:
  "install_is_necessary E build arch package inst s = Some (x, s') \<Longrightarrow> prepared_from s s'"
  using prepared_from_necessary_aux by fastforce

lemma prepared_from_filter_outdated:
  "filter_outdated E build arch inst toadd todel packages s = Some (x, s') \<Longrightarrow>
     prepared_from s s'"
proof (induction packages arbitrary: toadd todel s)
  case Nil
  then show ?case by simp
next
  case (Cons p ps)
  from Cons.prems obtain r s1
    where nec: "install_is_necessary E build arch p inst s = Some (r, s1)"
    by (cases "install_is_necessary E build arch p inst s") auto
  note inv1 = prepared_from_necessary[OF nec]
  show ?case
  proof (cases r)
    case (Inl e)
    with Cons.prems nec inv1 show ?thesis by simp
  next
    case (Inr necessary)
    with Cons.prems nec
    have "\<exists>toadd' todel'. filter_outdated E build arch inst toadd' todel' ps s1 = Some (x, s')"
      by (auto split: if_splits)
    then obtain toadd' todel'
      where "filter_outdated E build arch inst toadd' todel' ps s1 = Some (x, s')"
      by blast
    from inv1 Cons.IH[OF this] show ?thesis by (rule prepared_from_trans)
  qed
qed

lemma prepared_from_check_min_version:
  "check_min_version E suffix s = (x, s') \<Longrightarrow> prepared_from s s'"
  by (auto simp: check_min_version_def prepared_from_def logging_def record_event_def
           split: if_splits sum.splits option.splits)

lemma chroot_init_trace:
  "call_chroot_init E suffix s = (x, s') \<Longrightarrow> trace s' = trace s @ [ChrootInit suffix]"
  by (auto simp: call_chroot_init_def effect_def record_event_def split: sum.splits)

lemma prepare_initialises_chroot:
  assumes "install_prepare E packages suffix build s = Some (Inr r, s')"
  shows "\<exists>before after. trace s' = trace s @ before @ [ChrootInit suffix] @ after
           \<and> list_all is_prepare_event before \<and> list_all is_prepare_event after"
proof -
  obtain x1 s1 where c1: "check_min_version E suffix s = (x1, s1)"
    by (cases "check_min_version E suffix s") auto
  obtain x2 s2 where c2: "call_chroot_init E suffix s1 = (x2, s2)"
    by (cases "call_chroot_init E suffix s1") auto
  from prepared_from_check_min_version[OF c1] obtain before
    where b: "trace s1 = trace s @ before" "list_all is_prepare_event before"
    by (auto simp: prepared_from_def)
  note t2 = chroot_init_trace[OF c2]
  from assms c1 c2 have "prepared_from s2 s'"
    by (auto simp: install_prepare_def
             split: sum.splits option.splits prod.splits
             dest!: prepared_from_filter_outdated)
  then obtain after where a: "trace s' = trace s2 @ after" "list_all is_prepare_event after"
    by (auto simp: prepared_from_def)
  from b t2 a show ?thesis by auto
qed

lemma is_prepare_event_iff:
  "is_prepare_event ev =
     ((\<exists>l msg. ev = Log l msg) \<or> (\<exists>x. ev = ChrootInit x) \<or> (\<exists>p a f. ev = BuildPackage p a f))"
  by (cases ev) auto

lemma startswith_iff: "startswith p c = (\<exists>rest. p = c # rest)"
  by (cases p) (auto simp: startswith_def)

lemma find_Some_split:
  "List.find P xs = Some x \<Longrightarrow>
     \<exists>pre post. xs = pre @ x # post \<and> P x \<and> (\<forall>q\<in>set pre. \<not> P q)"
proof (induction xs)
  case Nil
  then show ?case by simp
next
  case (Cons a xs)
  show ?case
  proof (cases "P a")
    case True
    with Cons.prems have "a = x" by simp
    with True have "a # xs = [] @ x # xs \<and> P x \<and> (\<forall>q\<in>set []. \<not> P q)" by simp
    then show ?thesis by blast
  next
    case False
    with Cons.prems have "List.find P xs = Some x" by simp
    from Cons.IH[OF this] obtain pre post
      where "xs = pre @ x # post" "P x" "\<forall>q\<in>set pre. \<not> P q"
      by blast
    with False have "a # xs = (a # pre) @ x # post \<and> P x \<and> (\<forall>q\<in>set (a # pre). \<not> P q)"
      by simp
    then show ?thesis by blast
  qed
qed

text \<open>
  Claim C3 says that nothing with an effect has been called when the validation error is
  raised. It is not so: for the request \<^verbatim>\<open>-x\<close> with building allowed, the chroot has been
  initialised and the package builder has been called for \<^verbatim>\<open>-x\<close> before the error.
\<close>

theorem option_like_token_side_effects_counterexample:
  "install demo_env [''-x''] ''native'' True (demo_state []) =
     Some (Inl (ValueError ''Invalid package name: -x''),
           \<lparr> world = \<lparr> dw_files = [], dw_forced = 0 \<rparr>,
             trace = [Log DEBUG (msg_skipped ''native''),
                      ChrootInit ''native'',
                      BuildPackage ''-x'' ''x86_64'' False],
             apk_repository_list_updated = [], apk_min_version_checked = [] \<rparr>)"
  by code_simp

text \<open>
  Claim C3, amended. Lines 195 to 214 have returned the packages to add and to delete,
  and one of them starts with \<^verbatim>\<open>-\<close>. Then \<open>install\<close> raises the error
  \<^verbatim>\<open>Invalid package name:\<close> for the first such package, in the state that lines 195 to
  214 have left, and the package manager has not been called since the start of
  \<open>install\<close>. The error does not come before every call with an effect: the chroot has
  been initialised since the start of \<open>install\<close>, and everything else in the trace since
  then is a log entry, an initialisation of a chroot or a call of the package builder.
\<close>

theorem option_like_token_is_rejected:
  assumes prepared: "install_prepare E packages suffix build s =
                       Some (Inr (arch, packages_installed, toadd, todel), s1)"
    and dash: "\<exists>p\<in>set (toadd @ todel). \<exists>rest. p = CHR ''-'' # rest"
  shows "(\<exists>pre p post. toadd @ todel = pre @ p # post \<and>
            (\<forall>q\<in>set pre. \<forall>rest. q \<noteq> CHR ''-'' # rest) \<and> (\<exists>rest. p = CHR ''-'' # rest) \<and>
            install E packages suffix build s =
              Some (Inl (ValueError (''Invalid package name: '' @ p)), s1))
       \<and> apk_invocations s1 = apk_invocations s
       \<and> (\<exists>before after. trace s1 = trace s @ before @ [ChrootInit suffix] @ after \<and>
            (\<forall>ev\<in>set (before @ after).
               (\<exists>l msg. ev = Log l msg) \<or> (\<exists>x. ev = ChrootInit x) \<or>
               (\<exists>p a f. ev = BuildPackage p a f)))"
proof (intro conjI)
  from dash obtain p where san: "sanitize (toadd @ todel) = Some p"
    by (cases "sanitize (toadd @ todel)")
       (auto simp: sanitize_def find_None_iff startswith_iff)
  then obtain pre post where split: "toadd @ todel = pre @ p # post"
    and p: "startswith p (CHR ''-'')"
    and pre: "\<forall>q\<in>set pre. \<not> startswith q (CHR ''-'')"
    using find_Some_split[of "\<lambda>package. startswith package (CHR ''-'')" "toadd @ todel" p]
    by (auto simp: sanitize_def)
  from dash have "\<not> (toadd = [] \<and> todel = [])" by auto
  with prepared san
  have "install E packages suffix build s =
          Some (Inl (ValueError (''Invalid package name: '' @ p)), s1)"
    by (simp add: install_def install_apply_def)
  with split p pre
  have "toadd @ todel = pre @ p # post \<and>
            (\<forall>q\<in>set pre. \<forall>rest. q \<noteq> CHR ''-'' # rest) \<and> (\<exists>rest. p = CHR ''-'' # rest) \<and>
            install E packages suffix build s =
              Some (Inl (ValueError (''Invalid package name: '' @ p)), s1)"
    by (simp add: startswith_iff)
  then show "\<exists>pre p post. toadd @ todel = pre @ p # post \<and>
            (\<forall>q\<in>set pre. \<forall>rest. q \<noteq> CHR ''-'' # rest) \<and> (\<exists>rest. p = CHR ''-'' # rest) \<and>
            install E packages suffix build s =
              Some (Inl (ValueError (''Invalid package name: '' @ p)), s1)"
    by blast
  show "apk_invocations s1 = apk_invocations s"
    using prepared by (rule apk_invocations_prepare)
  from prepare_initialises_chroot[OF prepared] obtain before after
    where t: "trace s1 = trace s @ before @ [ChrootInit suffix] @ after"
      and ev: "list_all is_prepare_event before" "list_all is_prepare_event after"
    by blast
  from ev have "\<forall>ev\<in>set (before @ after).
               (\<exists>l msg. ev = Log l msg) \<or> (\<exists>x. ev = ChrootInit x) \<or>
               (\<exists>p a f. ev = BuildPackage p a f)"
    by (auto simp: list_all_iff is_prepare_event_iff)
  with t show "\<exists>before after. trace s1 = trace s @ before @ [ChrootInit suffix] @ after \<and>
            (\<forall>ev\<in>set (before @ after).
               (\<exists>l msg. ev = Log l msg) \<or> (\<exists>x. ev = ChrootInit x) \<or>
               (\<exists>p a f. ev = BuildPackage p a f))"
    by blast
qed

text \<open>
  A request for \<^verbatim>\<open>a\<close> and \<^verbatim>\<open>--allow-untrusted\<close> with building allowed; and the request
  \<^verbatim>\<open>!-x\<close> where \<^verbatim>\<open>-x\<close> is installed, for which the package builder is not called.
\<close>

theorem option_like_token_is_rejected_witness:
  "install demo_env [''a'', ''--allow-untrusted''] ''native'' True (demo_state []) =
     Some (Inl (ValueError ''Invalid package name: --allow-untrusted''),
           \<lparr> world = \<lparr> dw_files = [], dw_forced = 0 \<rparr>,
             trace = [Log DEBUG (msg_skipped ''native''),
                      ChrootInit ''native'',
                      BuildPackage ''a'' ''x86_64'' False,
                      BuildPackage ''--allow-untrusted'' ''x86_64'' False],
             apk_repository_list_updated = [], apk_min_version_checked = [] \<rparr>)
   \<and> install demo_env_dash [''!-x''] ''native'' True (demo_state []) =
     Some (Inl (ValueError ''Invalid package name: -x''),
           \<lparr> world = \<lparr> dw_files = [], dw_forced = 0 \<rparr>,
             trace = [Log DEBUG (msg_skipped ''native''),
                      ChrootInit ''native''],
             apk_repository_list_updated = [], apk_min_version_checked = [] \<rparr>)"
proof -
  let ?s1 = "\<lparr> world = \<lparr> dw_files = [], dw_forced = 0 \<rparr>,
             trace = [Log DEBUG (msg_skipped ''native''),
                      ChrootInit ''native'',
                      BuildPackage ''a'' ''x86_64'' False,
                      BuildPackage ''--allow-untrusted'' ''x86_64'' False],
             apk_repository_list_updated = [], apk_min_version_checked = [] \<rparr>"
  let ?t1 = "\<lparr> world = \<lparr> dw_files = [], dw_forced = 0 \<rparr>,
             trace = [Log DEBUG (msg_skipped ''native''),
                      ChrootInit ''native''],
             apk_repository_list_updated = [], apk_min_version_checked = [] \<rparr>"
  let ?db = "map_of [(''-x'', [(''version'', ''1.0-r0''), (''timestamp'', ''100.0'')])]"
  have prepared: "install_prepare demo_env [''a'', ''--allow-untrusted''] ''native'' True
                    (demo_state []) =
                  Some (Inr (''x86_64'', Map.empty, [''a'', ''--allow-untrusted''], []), ?s1)"
    by (simp add: install_prepare_def check_min_version_def demo_env_def demo_state_def
          logging_def record_event_def call_chroot_init_def effect_def installed_def
          install_is_necessary.simps startswith_def build_step_def build_disabled_def
          call_build_package_def)
  have dash: "\<exists>p\<in>set ([''a'', ''--allow-untrusted''] @ []). \<exists>rest. p = CHR ''-'' # rest"
    by simp
  from option_like_token_is_rejected [OF prepared dash]
  have first: "install demo_env [''a'', ''--allow-untrusted''] ''native'' True (demo_state []) =
                 Some (Inl (ValueError ''Invalid package name: --allow-untrusted''), ?s1)"
    by (auto simp: append_eq_Cons_conv Cons_eq_append_conv)
  have prepared': "install_prepare demo_env_dash [''!-x''] ''native'' True (demo_state []) =
                  Some (Inr (''x86_64'', ?db, [], [''-x'']), ?t1)"
    by (simp add: install_prepare_def check_min_version_def demo_env_dash_def
          demo_env_with_def demo_env_def demo_state_def
          logging_def record_event_def call_chroot_init_def effect_def installed_def
          install_is_necessary.simps startswith_def lstrip_def)
  have dash': "\<exists>p\<in>set ([] @ [''-x'']). \<exists>rest. p = CHR ''-'' # rest"
    by simp
  from option_like_token_is_rejected [OF prepared' dash']
  have second: "install demo_env_dash [''!-x''] ''native'' True (demo_state []) =
                 Some (Inl (ValueError ''Invalid package name: -x''), ?t1)"
    by (auto simp: append_eq_Cons_conv Cons_eq_append_conv)
  from first second show ?thesis by simp
qed

text \<open>
  Claim C4 says that no package that starts with \<^verbatim>\<open>-\<close> is in a command given to the
  package manager. The check of lines 220 to 222 reads the packages to add and to delete;
  the command \<^verbatim>\<open>add\<close> of lines 242 and 246 is built from the packages of the request, which
  are not checked. Here are the calls of the package manager for two requests that hold
  \<^verbatim>\<open>-x\<close>: one where \<^verbatim>\<open>-x\<close> is installed and up to date, and one where the dependency
  resolver answers with the package that provides \<^verbatim>\<open>-x\<close>. In both, \<^verbatim>\<open>apk add -x\<close> is run.
\<close>

theorem unvalidated_request_reaches_apk:
  "map_option (\<lambda>(r, s). (r, apk_invocations s))
     (install demo_env_dash [''-x'', ''a''] ''native'' False (demo_state [])) =
     Some (Inr (),
           [ApkWithProgress [''apk'', ''add'', ''-u'', ''--virtual'', ''.pmbootstrap'', ''a'']
              ''native'',
            ChrootRoot [''apk'', ''--no-progress'', ''add'', ''-x'', ''a''] ''native'',
            ChrootRoot [''apk'', ''--no-progress'', ''del'', ''.pmbootstrap''] ''native''])
   \<and> map_option (\<lambda>(r, s). (r, apk_invocations s))
     (install demo_env_provider [''-x''] ''native'' False (demo_state [])) =
     Some (Inr (),
           [ApkWithProgress [''apk'', ''add'', ''-u'', ''--virtual'', ''.pmbootstrap'', ''y'']
              ''native'',
            ChrootRoot [''apk'', ''--no-progress'', ''add'', ''-x''] ''native'',
            ChrootRoot [''apk'', ''--no-progress'', ''del'', ''.pmbootstrap''] ''native''])"
  by code_simp

text \<open>
  Claim C5. Lines 195 to 214 have returned packages to add or to delete, none of them
  starts with \<^verbatim>\<open>-\<close>, and the packages to add have been resolved to \<open>toadd'\<close>. Then
  \<open>install\<close> runs these commands, in this order: one \<^verbatim>\<open>add\<close> of the requested packages
  without those marked with \<^verbatim>\<open>!\<close>; in its place, when \<open>toadd'\<close> is not empty and differs from
  that list, the three commands of the virtual package (\<^verbatim>\<open>add -u --virtual .pmbootstrap\<close> of
  \<open>toadd'\<close>, \<^verbatim>\<open>add\<close> of the requested packages, \<^verbatim>\<open>del .pmbootstrap\<close>); and after them one
  \<^verbatim>\<open>del\<close> of the packages to delete if and only if there are some. For the request
  \<^verbatim>\<open>a\<close>, \<^verbatim>\<open>!b\<close> with \<^verbatim>\<open>a\<close> to add under its own name and \<^verbatim>\<open>b\<close> to delete, the commands are
  \<^verbatim>\<open>add a\<close> and \<^verbatim>\<open>del b\<close>.
\<close>

theorem composed_command_sequence:
  assumes prepared: "install_prepare E packages suffix build s =
                       Some (Inr (arch, packages_installed, toadd, todel), s1)"
    and nonempty: "toadd \<noteq> [] \<or> todel \<noteq> []"
    and valid: "sanitize (toadd @ todel) = None"
    and resolved: "replace_aports_packages_with_path E toadd suffix arch (world s1) = Inr toadd'"
  shows "install E packages suffix build s =
           Some (run_commands E suffix 0
                  ((if toadd' \<noteq> [] \<and> filter (\<lambda>p. \<not> startswith p (CHR ''!'')) packages \<noteq> toadd'
                    then [[''add'', ''-u'', ''--virtual'', ''.pmbootstrap''] @ toadd',
                          [''add''] @ filter (\<lambda>p. \<not> startswith p (CHR ''!'')) packages,
                          [''del'', ''.pmbootstrap'']]
                    else [[''add''] @ filter (\<lambda>p. \<not> startswith p (CHR ''!'')) packages]) @
                   (if todel \<noteq> [] then [[''del''] @ todel] else []))
                  (logging INFO (install_message suffix packages packages_installed) s1))
       \<and> compose_commands [''a'', ''!b''] [''a''] [''b''] = [[''add'', ''a''], [''del'', ''b'']]"
proof
  have w: "world (logging INFO (install_message suffix packages packages_installed) s1) = world s1"
    by (simp add: logging_def record_event_def)
  show "install E packages suffix build s =
           Some (run_commands E suffix 0
                  ((if toadd' \<noteq> [] \<and> filter (\<lambda>p. \<not> startswith p (CHR ''!'')) packages \<noteq> toadd'
                    then [[''add'', ''-u'', ''--virtual'', ''.pmbootstrap''] @ toadd',
                          [''add''] @ filter (\<lambda>p. \<not> startswith p (CHR ''!'')) packages,
                          [''del'', ''.pmbootstrap'']]
                    else [[''add''] @ filter (\<lambda>p. \<not> startswith p (CHR ''!'')) packages]) @
                   (if todel \<noteq> [] then [[''del''] @ todel] else []))
                  (logging INFO (install_message suffix packages packages_installed) s1))"
    using prepared nonempty valid resolved w
    by (auto simp: install_def install_apply_def compose_commands_def Let_def)
  show "compose_commands [''a'', ''!b''] [''a''] [''b''] = [[''add'', ''a''], [''del'', ''b'']]"
    by (simp add: compose_commands_def startswith_def)
qed

text \<open>
  Scenario D of the specification, through the whole of \<open>install\<close>: \<^verbatim>\<open>a\<close> is not
  installed and has no build recipe, \<^verbatim>\<open>b\<close> is installed.
\<close>

theorem composed_command_sequence_witness:
  "install demo_env_scenario_D [''a'', ''!b''] ''native'' True (demo_state []) =
     Some (Inr (),
           \<lparr> world = \<lparr> dw_files = [], dw_forced = 0 \<rparr>,
             trace = [Log DEBUG (msg_skipped ''native''),
                      ChrootInit ''native'',
                      BuildPackage ''a'' ''x86_64'' False,
                      Log INFO ''(native) install a !b'',
                      ApkWithProgress [''apk'', ''add'', ''a''] ''native'',
                      ChrootRoot [''apk'', ''--no-progress'', ''del'', ''b''] ''native''],
             apk_repository_list_updated = [], apk_min_version_checked = [] \<rparr>)"
proof -
  let ?db = "map_of [(''b'', [(''version'', ''1.0-r0''), (''timestamp'', ''100.0'')])]"
  let ?s1 = "\<lparr> world = \<lparr> dw_files = [], dw_forced = 0 \<rparr>,
             trace = [Log DEBUG (msg_skipped ''native''),
                      ChrootInit ''native'',
                      BuildPackage ''a'' ''x86_64'' False],
             apk_repository_list_updated = [], apk_min_version_checked = [] \<rparr>"
  have prepared: "install_prepare demo_env_scenario_D [''a'', ''!b''] ''native'' True
                    (demo_state []) = Some (Inr (''x86_64'', ?db, [''a''], [''b'']), ?s1)"
    by (simp add: install_prepare_def check_min_version_def demo_env_scenario_D_def
          demo_env_with_def demo_env_def demo_state_def
          logging_def record_event_def call_chroot_init_def effect_def installed_def
          install_is_necessary.simps startswith_def build_step_def build_disabled_def
          call_build_package_def lstrip_def)
  have nonempty: "[''a''] \<noteq> [] \<or> [''b''] \<noteq> []"
    by simp
  have valid: "sanitize ([''a''] @ [''b'']) = None"
    by (simp add: sanitize_def startswith_def)
  have resolved: "replace_aports_packages_with_path demo_env_scenario_D [''a''] ''native''
                    ''x86_64'' (world ?s1) = Inr [''a'']"
    by (simp add: replace_aports_packages_with_path_def demo_env_scenario_D_def
          demo_env_with_def demo_env_def truthy_path_def)
  from composed_command_sequence [OF prepared nonempty valid resolved] show ?thesis
    by (simp add: startswith_def install_message_def logging_def record_event_def
          demo_env_scenario_D_def demo_env_with_def demo_env_def
          call_apk_with_progress_def call_chroot_root_def effect_def)
qed

end
